theory Spec2Isabelle
  imports Complex_Main "HOL-Library.Multiset"
begin

section \<open>Python values shared by the modules\<close>

text \<open>
  Exceptions of the Python sources are values: a function that can raise returns
  \<open>error + 'a\<close>, with \<open>Inl\<close> for the exception. Python floats and numpy float64 values
  are modelled as the real numbers they denote (no rounding); the places where a
  non-finite float can arise from finite inputs (division by zero) are modelled
  explicitly further down.
\<close>

datatype error = ValueError | KeyError | IndexError | ZeroDivisionError | UnboundLocalError
  | BackendError

definition bind :: "error + 'a \<Rightarrow> ('a \<Rightarrow> error + 'b) \<Rightarrow> error + 'b" where
  "bind m f = (case m of Inl e \<Rightarrow> Inl e | Inr x \<Rightarrow> f x)"

text \<open>A \<open>for x in xs: body\<close> loop over a state, leaving at the first exception.\<close>

fun for_each :: "'a list \<Rightarrow> ('a \<Rightarrow> 's \<Rightarrow> error + 's) \<Rightarrow> 's \<Rightarrow> error + 's" where
  "for_each [] body s = Inr s"
| "for_each (x # xs) body s =
     (case body x s of Inl e \<Rightarrow> Inl e | Inr s' \<Rightarrow> for_each xs body s')"

text \<open>
  A \<open>dict\<close> is an association list in insertion order with one entry per key.
  \<open>dict_set\<close> is \<open>d[k] = v\<close>, \<open>dict_get\<close> is \<open>d[k]\<close> (KeyError on a missing key),
  \<open>dict_get_default\<close> is \<open>d.get(k, v)\<close>.
\<close>

fun dict_set :: "('k \<times> 'v) list \<Rightarrow> 'k \<Rightarrow> 'v \<Rightarrow> ('k \<times> 'v) list" where
  "dict_set [] k v = [(k, v)]"
| "dict_set ((k', v') # d) k v =
     (if k' = k then (k', v) # d else (k', v') # dict_set d k v)"

definition dict_get :: "('k \<times> 'v) list \<Rightarrow> 'k \<Rightarrow> error + 'v" where
  "dict_get d k = (case map_of d k of None \<Rightarrow> Inl KeyError | Some v \<Rightarrow> Inr v)"

definition dict_get_default :: "('k \<times> 'v) list \<Rightarrow> 'k \<Rightarrow> 'v \<Rightarrow> 'v" where
  "dict_get_default d k v = (case map_of d k of None \<Rightarrow> v | Some w \<Rightarrow> w)"

section \<open>QUBO dictionaries (qubo\_builder.py, quantum\_solver.py)\<close>

text \<open>
  The keys of \<open>Q\<close> are Python tuples. The encoder writes pairs \<open>(a, b)\<close> of variable
  indices and the one-element tuple \<open>('const',)\<close>, so a key is a list of components,
  each an integer index or a string. \<open>Q\<close> is a \<open>defaultdict(float)\<close>: \<open>Q[k] += c\<close> on a
  missing key starts from \<open>0.0\<close>.
\<close>

datatype elem = Idx nat | Str string

type_synonym qkey = "elem list"
type_synonym qubo = "(qkey \<times> real) list"

definition dict_add :: "qubo \<Rightarrow> qkey \<Rightarrow> real \<Rightarrow> qubo" where
  "dict_add Q k c = dict_set Q k (dict_get_default Q k 0 + c)"

text \<open>An assignment is a \<open>dict\<close> from variables to 0 or 1; only its content matters.\<close>

type_synonym assignment = "elem \<rightharpoonup> nat"

subsection \<open>The greedy fallback: \<open>QuantumSolver._solve_greedy\<close>\<close>

text \<open>
  \<open>for (i, j) in Q.keys()\<close> unpacks every key into two names; a key that is not a
  tuple of length two raises ValueError.
\<close>

fun unpack2 :: "qkey \<Rightarrow> error + (elem \<times> elem)" where
  "unpack2 [i, j] = Inr (i, j)"
| "unpack2 k = Inl ValueError"

text \<open>First loop: the set \<open>variables\<close>, filled from the keys with \<open>i != j\<close>.\<close>

definition collect_variables :: "qubo \<Rightarrow> error + elem set" where
  "collect_variables Q =
     for_each (map fst Q)
       (\<lambda>k vars. bind (unpack2 k)
          (\<lambda>(i, j). Inr (if i \<noteq> j then insert j (insert i vars) else vars)))
       {}"

text \<open>Third loop: \<open>linear_terms[i] = linear_terms.get(i, 0) + coeff\<close> for the keys with \<open>i == j\<close>.\<close>

definition collect_linear_terms :: "qubo \<Rightarrow> error + (elem \<times> real) list" where
  "collect_linear_terms Q =
     for_each Q
       (\<lambda>(k, coeff) lin. bind (unpack2 k)
          (\<lambda>(i, j). Inr (if i = j then dict_set lin i (dict_get_default lin i 0 + coeff) else lin)))
       []"

text \<open>
  Fifth loop, over \<open>sorted(linear_terms.items(), key=lambda x: x[1])\<close> (a stable sort):
  a variable with a negative coefficient is set to 1 and its coefficient added to the energy.
\<close>

definition assign_greedily ::
  "(elem \<times> real) list \<Rightarrow> assignment \<times> real \<Rightarrow> error + (assignment \<times> real)" where
  "assign_greedily sorted_vars =
     for_each sorted_vars
       (\<lambda>(var, coeff) (solution, energy).
          Inr (if coeff < 0 then (solution(var \<mapsto> 1), energy + coeff) else (solution, energy)))"

text \<open>Last loop: the quadratic terms whose two variables are both 1.\<close>

definition add_quadratic_terms :: "qubo \<Rightarrow> assignment \<Rightarrow> real \<Rightarrow> error + real" where
  "add_quadratic_terms Q solution =
     for_each Q
       (\<lambda>(k, coeff) energy. bind (unpack2 k)
          (\<lambda>(i, j). Inr (if i \<noteq> j
                            \<and> (case solution i of None \<Rightarrow> 0 | Some b \<Rightarrow> b) = 1
                            \<and> (case solution j of None \<Rightarrow> 0 | Some b \<Rightarrow> b) = 1
                          then energy + coeff else energy)))"

text \<open>
  \<open>_solve_greedy(Q, var_index)\<close>; the parameter \<open>var_index\<close> is never read by the source
  and is left out.
\<close>

definition solve_greedy :: "qubo \<Rightarrow> error + (assignment \<times> real)" where
  "solve_greedy Q =
     bind (collect_variables Q) (\<lambda>variables.
     bind (collect_linear_terms Q) (\<lambda>linear_terms.
     bind (assign_greedily (sort_key snd linear_terms)
             ((\<lambda>v. if v \<in> variables then Some 0 else None), 0)) (\<lambda>(solution, energy).
     bind (add_quadratic_terms Q solution energy) (\<lambda>energy'.
     Inr (solution, energy')))))"

subsection \<open>The solver chain: \<open>QuantumSolver.solve_qubo\<close>\<close>

text \<open>
  The four library backends (D-Wave hybrid, D-Wave QPU, neal, dimod exact) are outside the
  repository. Each is a parameter: the outcome of the body of the \<open>try\<close> block, an
  assignment with its energy or an exception. The \<open>except Exception\<close> handler of each
  \<open>_solve_*\<close> method calls \<open>_solve_greedy(Q, {})\<close>. The elapsed wall-clock time that
  \<open>solve_qubo\<close> returns as a third component is not modelled.
\<close>

type_synonym backend = "qubo \<Rightarrow> error + (assignment \<times> real)"

record backends =
  dwave_hybrid_sample :: backend
  dwave_qpu_sample :: backend
  neal_sample :: backend
  dimod_exact_sample :: backend

record quantum_solver =
  solver_type :: string
  available_solvers :: "string list"

definition with_fallback :: "backend \<Rightarrow> qubo \<Rightarrow> error + (assignment \<times> real)" where
  "with_fallback sample Q = (case sample Q of Inr r \<Rightarrow> Inr r | Inl e \<Rightarrow> solve_greedy Q)"

definition solve_dwave_hybrid :: "backends \<Rightarrow> qubo \<Rightarrow> error + (assignment \<times> real)" where
  "solve_dwave_hybrid b Q = with_fallback (dwave_hybrid_sample b) Q"

definition solve_dwave_qpu :: "backends \<Rightarrow> qubo \<Rightarrow> error + (assignment \<times> real)" where
  "solve_dwave_qpu b Q = with_fallback (dwave_qpu_sample b) Q"

definition solve_neal :: "backends \<Rightarrow> qubo \<Rightarrow> error + (assignment \<times> real)" where
  "solve_neal b Q = with_fallback (neal_sample b) Q"

definition solve_dimod_exact :: "backends \<Rightarrow> qubo \<Rightarrow> error + (assignment \<times> real)" where
  "solve_dimod_exact b Q = with_fallback (dimod_exact_sample b) Q"

definition get_best_solver :: "quantum_solver \<Rightarrow> string" where
  "get_best_solver s =
     (if ''dwave_hybrid'' \<in> set (available_solvers s) then ''dwave_hybrid''
      else if ''neal'' \<in> set (available_solvers s) then ''neal''
      else if ''dimod_exact'' \<in> set (available_solvers s) then ''dimod_exact''
      else ''greedy'')"

definition solve_qubo :: "quantum_solver \<Rightarrow> backends \<Rightarrow> qubo \<Rightarrow> error + (assignment \<times> real)" where
  "solve_qubo s b Q =
     (let solver = (if solver_type s = ''auto'' then get_best_solver s else solver_type s) in
      if solver = ''dwave_hybrid'' \<and> ''dwave_hybrid'' \<in> set (available_solvers s)
        then solve_dwave_hybrid b Q
      else if solver = ''dwave_qpu'' \<and> ''dwave_qpu'' \<in> set (available_solvers s)
        then solve_dwave_qpu b Q
      else if solver = ''neal'' \<and> ''neal'' \<in> set (available_solvers s)
        then solve_neal b Q
      else if solver = ''dimod_exact'' \<and> ''dimod_exact'' \<in> set (available_solvers s)
        then solve_dimod_exact b Q
      else solve_greedy Q)"

section \<open>The TSP encoder: \<open>QUBOBuilder.build_time_dependent_tsp_qubo\<close>\<close>

text \<open>
  A numpy matrix is the list of its rows. \<open>py_index\<close> is indexing along an axis of
  length \<open>n\<close>: a negative index counts from the end, anything outside raises IndexError.
\<close>

type_synonym matrix = "real list list"

definition py_index :: "nat \<Rightarrow> int \<Rightarrow> error + nat" where
  "py_index n i =
     (if 0 \<le> i \<and> i < int n then Inr (nat i)
      else if - int n \<le> i \<and> i < 0 then Inr (nat (i + int n))
      else Inl IndexError)"

definition mat_get :: "matrix \<Rightarrow> int \<Rightarrow> int \<Rightarrow> error + real" where
  "mat_get M i j =
     bind (py_index (length M) i) (\<lambda>r.
     bind (py_index (length (M ! r)) j) (\<lambda>c. Inr (M ! r ! c)))"

type_synonym tsp_var_index = "((nat \<times> nat) \<times> nat) list"

text \<open>The variable mapping: \<open>var_index[(i, p)] = idx; idx += 1\<close> in two nested loops.\<close>

definition build_var_index :: "nat \<Rightarrow> tsp_var_index" where
  "build_var_index N =
     fst (fold (\<lambda>i. fold (\<lambda>p (var_index, idx). (dict_set var_index (i, p) idx, idx + 1)) [0..<N])
            [0..<N] ([], 0))"

text \<open>\<open>itertools.combinations(xs, 2)\<close>.\<close>

fun combinations2 :: "'a list \<Rightarrow> ('a \<times> 'a) list" where
  "combinations2 [] = []"
| "combinations2 (x # xs) = map (Pair x) xs @ combinations2 xs"

text \<open>A list comprehension whose element expression can raise.\<close>

fun map_err :: "('a \<Rightarrow> error + 'b) \<Rightarrow> 'a list \<Rightarrow> error + 'b list" where
  "map_err f [] = Inr []"
| "map_err f (x # xs) = bind (f x) (\<lambda>y. bind (map_err f xs) (\<lambda>ys. Inr (y # ys)))"

text \<open>The objective: \<open>Q[(vi, vj)] += time_matrix[i, j]\<close> for adjacent positions.\<close>

definition add_objective :: "matrix \<Rightarrow> tsp_var_index \<Rightarrow> nat \<Rightarrow> qubo \<Rightarrow> error + qubo" where
  "add_objective time_matrix var_index N =
     for_each [0..<N] (\<lambda>p.
       for_each [0..<N] (\<lambda>i.
         for_each [0..<N] (\<lambda>j Q.
           if i = j then Inr Q
           else bind (dict_get var_index (i, p)) (\<lambda>vi.
                bind (dict_get var_index (j, (p + 1) mod N)) (\<lambda>vj.
                bind (mat_get time_matrix (int i) (int j)) (\<lambda>t.
                Inr (dict_add Q [Idx vi, Idx vj] t)))))))"

text \<open>
  The body shared by the two constraint loops, for the variables \<open>vars\<close> of one group:
  \<open>+2\<lambda>\<close> on every pair, \<open>-2\<lambda>\<close> on every diagonal entry, \<open>+\<lambda>\<close> on the key \<open>('const',)\<close>.
\<close>

definition one_hot_penalty :: "real \<Rightarrow> nat list \<Rightarrow> qubo \<Rightarrow> qubo" where
  "one_hot_penalty lambda_penalty vars Q =
     (let Q1 = fold (\<lambda>(a, b) Q. dict_add Q [Idx a, Idx b] (2 * lambda_penalty))
                 (combinations2 vars) Q;
          Q2 = fold (\<lambda>a Q. dict_add Q [Idx a, Idx a] (- 2 * lambda_penalty)) vars Q1
      in dict_add Q2 [Str ''const''] lambda_penalty)"

text \<open>Constraint 1: each node visited exactly once.\<close>

definition add_node_constraints :: "real \<Rightarrow> tsp_var_index \<Rightarrow> nat \<Rightarrow> qubo \<Rightarrow> error + qubo" where
  "add_node_constraints lambda_penalty var_index N =
     for_each [0..<N] (\<lambda>i Q.
       bind (map_err (\<lambda>p. dict_get var_index (i, p)) [0..<N]) (\<lambda>vars_i.
       Inr (one_hot_penalty lambda_penalty vars_i Q)))"

text \<open>Constraint 2: each position has exactly one node.\<close>

definition add_position_constraints :: "real \<Rightarrow> tsp_var_index \<Rightarrow> nat \<Rightarrow> qubo \<Rightarrow> error + qubo" where
  "add_position_constraints lambda_penalty var_index N =
     for_each [0..<N] (\<lambda>p Q.
       bind (map_err (\<lambda>i. dict_get var_index (i, p)) [0..<N]) (\<lambda>vars_p.
       Inr (one_hot_penalty lambda_penalty vars_p Q)))"

text \<open>\<open>np.min(time_matrix[time_matrix > 0])\<close>; numpy raises ValueError on an empty selection.\<close>

definition min_positive :: "matrix \<Rightarrow> error + real" where
  "min_positive M =
     (let pos = filter (\<lambda>v. 0 < v) (concat M)
      in if pos = [] then Inl ValueError else Inr (Min (set pos)))"

definition list_get :: "'a list \<Rightarrow> nat \<Rightarrow> error + 'a" where
  "list_get xs i = (if i < length xs then Inr (xs ! i) else Inl IndexError)"

definition add_time_window_constraints ::
  "real \<Rightarrow> qubo \<Rightarrow> tsp_var_index \<Rightarrow> matrix \<Rightarrow> (real \<times> real) list \<Rightarrow> nat \<Rightarrow> error + qubo" where
  "add_time_window_constraints lambda_penalty Q0 var_index time_matrix time_windows N =
     for_each [0..<N] (\<lambda>i Q.
       if i = 0 then Inr Q
       else bind (list_get time_windows i) (\<lambda>(earliest, latest).
         for_each [0..<N] (\<lambda>p Q.
           bind (min_positive time_matrix) (\<lambda>m.
           let min_travel_time = m * real p;
               service_time = 5;
               estimated_arrival = min_travel_time + real p * service_time
           in if estimated_arrival < earliest then
                bind (dict_get var_index (i, p)) (\<lambda>vi.
                Inr (dict_add Q [Idx vi, Idx vi]
                       (lambda_penalty * (earliest - estimated_arrival) / 60)))
              else if estimated_arrival > latest then
                bind (dict_get var_index (i, p)) (\<lambda>vi.
                Inr (dict_add Q [Idx vi, Idx vi]
                       (lambda_penalty * (estimated_arrival - latest) / 60)))
              else Inr Q)) Q)) Q0"

definition add_capacity_constraints ::
  "real \<Rightarrow> qubo \<Rightarrow> tsp_var_index \<Rightarrow> real list \<Rightarrow> nat \<Rightarrow> error + qubo" where
  "add_capacity_constraints lambda_penalty Q0 var_index capacity_constraints N =
     (let max_capacity = 100 in
      for_each [0..<N] (\<lambda>p.
        for_each [0..<N] (\<lambda>i Q.
          bind (dict_get var_index (i, p)) (\<lambda>vi.
          let capacity = (if i < length capacity_constraints
                          then capacity_constraints ! i else 1)
          in Inr (if capacity > max_capacity
                  then dict_add Q [Idx vi, Idx vi]
                         (lambda_penalty * (capacity - max_capacity) / max_capacity)
                  else Q)))) Q0)"

text \<open>
  The encoder. \<open>if time_windows:\<close> and \<open>if capacity_constraints:\<close> are false for \<open>None\<close>
  and for an empty list. The parameter \<open>depot_index\<close> is never read by the source.
\<close>

definition build_time_dependent_tsp_qubo ::
  "real \<Rightarrow> matrix \<Rightarrow> (real \<times> real) list option \<Rightarrow> real list option
     \<Rightarrow> error + (qubo \<times> tsp_var_index)" where
  "build_time_dependent_tsp_qubo lambda_penalty time_matrix time_windows capacity_constraints =
     (let N = length time_matrix; var_index = build_var_index N in
      bind (add_objective time_matrix var_index N []) (\<lambda>Q.
      bind (add_node_constraints lambda_penalty var_index N Q) (\<lambda>Q.
      bind (add_position_constraints lambda_penalty var_index N Q) (\<lambda>Q.
      bind (case time_windows of
              None \<Rightarrow> Inr Q
            | Some tw \<Rightarrow> if tw = [] then Inr Q
                         else add_time_window_constraints lambda_penalty Q var_index
                                time_matrix tw N) (\<lambda>Q.
      bind (case capacity_constraints of
              None \<Rightarrow> Inr Q
            | Some cc \<Rightarrow> if cc = [] then Inr Q
                         else add_capacity_constraints lambda_penalty Q var_index cc N) (\<lambda>Q.
      Inr (Q, var_index)))))))"

text \<open>
  The energy of a QUBO dictionary under a binary assignment \<open>x\<close>: the sum of
  \<open>Q[(a, b)] * x a * x b\<close> over the pair keys, plus the constant stored under \<open>('const',)\<close>.
  The source has no function for it; this is the quantity the solvers minimise.
\<close>

fun term_value :: "(nat \<Rightarrow> nat) \<Rightarrow> qkey \<Rightarrow> real" where
  "term_value x [Idx a, Idx b] = real (x a) * real (x b)"
| "term_value x [Str s] = (if s = ''const'' then 1 else 0)"
| "term_value x k = 0"

definition qubo_energy :: "qubo \<Rightarrow> (nat \<Rightarrow> nat) \<Rightarrow> real" where
  "qubo_energy Q x = sum_list (map (\<lambda>(k, c). c * term_value x k) Q)"

section \<open>The VRP decoder: \<open>QUBOBuilder._extract_vrp_solution\<close>\<close>

type_synonym vrp_var_index = "((nat \<times> nat \<times> nat) \<times> nat) list"

text \<open>The variable mapping of \<open>build_vrp_qubo\<close>: one index per vehicle and edge \<open>i \<noteq> j\<close>.\<close>

definition build_vrp_var_index :: "nat \<Rightarrow> nat \<Rightarrow> vrp_var_index" where
  "build_vrp_var_index N num_vehicles =
     fst (fold (\<lambda>k. fold (\<lambda>i. fold (\<lambda>j (var_index, idx).
                  if i \<noteq> j then (dict_set var_index (i, j, k) idx, idx + 1)
                  else (var_index, idx)) [0..<N]) [0..<N])
            [0..<num_vehicles] ([], 0))"

text \<open>\<open>vehicle_routes[k].append((i, j))\<close> for every variable whose value is 1.\<close>

definition group_by_vehicle ::
  "assignment \<Rightarrow> vrp_var_index \<Rightarrow> (nat \<times> (nat \<times> nat) list) list" where
  "group_by_vehicle solution var_index =
     fold (\<lambda>((i, j, k), var_idx) vehicle_routes.
             if (case solution (Idx var_idx) of None \<Rightarrow> 0 | Some b \<Rightarrow> b) = 1
             then dict_set vehicle_routes k (dict_get_default vehicle_routes k [] @ [(i, j)])
             else vehicle_routes)
       var_index []"

text \<open>
  The \<open>while True\<close> loop of one vehicle. It has no bound in the source, so it is a partial
  function: \<open>None\<close> is a walk that never leaves the loop.
\<close>

partial_function (option) walk :: "(nat \<times> nat) list \<Rightarrow> nat \<Rightarrow> nat list \<Rightarrow> nat list option" where
  "walk route_edges current route =
     (case find (\<lambda>(i, j). i = current) route_edges of
        None \<Rightarrow> Some route
      | Some (i, next_node) \<Rightarrow>
          if next_node = 0 then Some route
          else walk route_edges next_node (route @ [next_node]))"

fun build_routes ::
  "(nat \<times> (nat \<times> nat) list) list \<Rightarrow> nat list list \<Rightarrow> nat list list option" where
  "build_routes [] routes = Some routes"
| "build_routes ((k, route_edges) # rest) routes =
     (if route_edges = [] then build_routes rest routes
      else case walk route_edges 0 [0] of
             None \<Rightarrow> None
           | Some route \<Rightarrow>
               build_routes rest (if length route > 1 then routes @ [route] else routes))"

definition extract_vrp_solution :: "assignment \<Rightarrow> vrp_var_index \<Rightarrow> nat list list option" where
  "extract_vrp_solution solution var_index =
     build_routes (sort_key fst (group_by_vehicle solution var_index)) []"

section \<open>Route metrics: \<open>RouteOptimizer\<close> (quantum\_solver.py)\<close>

text \<open>
  A route is a list of Python integers. \<open>sum_edges\<close> is the loop
  \<open>for i in range(len(route) - 1): total_time += time_matrix[route[i], route[i + 1]]\<close>.
\<close>

type_synonym route = "int list"

fun sum_edges :: "route \<Rightarrow> matrix \<Rightarrow> real \<Rightarrow> error + real" where
  "sum_edges (a # b # rest) time_matrix total_time =
     bind (mat_get time_matrix a b) (\<lambda>t. sum_edges (b # rest) time_matrix (total_time + t))"
| "sum_edges rest time_matrix total_time = Inr total_time"

definition RouteOptimizer_calculate_route_time :: "route \<Rightarrow> matrix \<Rightarrow> error + real" where
  "RouteOptimizer_calculate_route_time route time_matrix =
     (if length route < 2 then Inr 0
      else bind (sum_edges route time_matrix 0) (\<lambda>total_time.
           if last route \<noteq> 0
           then bind (mat_get time_matrix (last route) 0) (\<lambda>t. Inr (total_time + t))
           else Inr total_time))"

text \<open>
  Division is the one place where the float type decides the outcome on finite inputs.
  A route shorter than two nodes has the time \<open>0.0\<close>, a Python float; any other route time
  is a sum of matrix entries, a numpy float64. Python's \<open>/\<close> on two Python floats raises
  ZeroDivisionError on a zero divisor; with a numpy operand it returns \<open>nan\<close> for \<open>0/0\<close> and
  an infinity for \<open>x/0\<close> (the divisor, a sum started at \<open>0.0\<close>, is never \<open>-0.0\<close>).
\<close>

datatype npfloat = Fin real | PosInf | NegInf | NaN

definition np_div :: "real \<Rightarrow> real \<Rightarrow> npfloat" where
  "np_div a b =
     (if b \<noteq> 0 then Fin (a / b)
      else if a = 0 then NaN else if 0 < a then PosInf else NegInf)"

definition py_div :: "real \<Rightarrow> real \<Rightarrow> error + npfloat" where
  "py_div a b = (if b = 0 then Inl ZeroDivisionError else Inr (Fin (a / b)))"

text \<open>Multiplication and division of a float by a positive finite constant, and addition of one.\<close>

fun np_scale :: "real \<Rightarrow> npfloat \<Rightarrow> npfloat" where
  "np_scale c (Fin v) = Fin (c * v)"
| "np_scale c x = x"

fun np_shift :: "real \<Rightarrow> npfloat \<Rightarrow> npfloat" where
  "np_shift c (Fin v) = Fin (c + v)"
| "np_shift c x = x"

record comparison =
  baseline_time :: real
  optimized_time :: real
  improvement_percent :: npfloat
  time_saved :: real

definition compare_with_baseline :: "matrix \<Rightarrow> route \<Rightarrow> route \<Rightarrow> error + comparison" where
  "compare_with_baseline time_matrix baseline_route optimized_route =
     bind (RouteOptimizer_calculate_route_time baseline_route time_matrix) (\<lambda>baseline_time.
     bind (RouteOptimizer_calculate_route_time optimized_route time_matrix) (\<lambda>optimized_time.
     bind (if length baseline_route < 2 \<and> length optimized_route < 2
           then py_div (baseline_time - optimized_time) baseline_time
           else Inr (np_div (baseline_time - optimized_time) baseline_time)) (\<lambda>q.
     Inr \<lparr>baseline_time = baseline_time, optimized_time = optimized_time,
          improvement_percent = np_scale 100 q,
          time_saved = baseline_time - optimized_time\<rparr>)))"

section \<open>The simplified optimizer: \<open>SimpleRouteOptimizer\<close> (solver\_simple.py)\<close>

definition calculate_route_time :: "route \<Rightarrow> matrix \<Rightarrow> error + real" where
  "calculate_route_time route time_matrix =
     (if length route < 2 then Inr 0
      else bind (sum_edges route time_matrix 0) (\<lambda>total_time.
           if last route \<noteq> 0
           then bind (mat_get time_matrix (last route) 0) (\<lambda>t. Inr (total_time + t))
           else Inr total_time))"

text \<open>
  \<open>min(xs, key=f)\<close>: the first element with the least key; ValueError on an empty list.
\<close>

fun min_by :: "('a \<Rightarrow> error + real) \<Rightarrow> 'a list \<Rightarrow> 'a \<Rightarrow> real \<Rightarrow> error + 'a" where
  "min_by f [] best best_key = Inr best"
| "min_by f (x # xs) best best_key =
     (case f x of Inl e \<Rightarrow> Inl e
      | Inr k \<Rightarrow> if k < best_key then min_by f xs x k else min_by f xs best best_key)"

definition py_min :: "('a \<Rightarrow> error + real) \<Rightarrow> 'a list \<Rightarrow> error + 'a" where
  "py_min f xs =
     (case xs of [] \<Rightarrow> Inl ValueError
      | x # rest \<Rightarrow> (case f x of Inl e \<Rightarrow> Inl e | Inr k \<Rightarrow> min_by f rest x k))"

text \<open>
  The \<open>while unvisited:\<close> loop of \<open>nearest_neighbor\<close>. \<open>unvisited.remove(nearest)\<close>
  removes an element that \<open>min\<close> has just taken from the list, so the list gets shorter
  in every round.
\<close>

function nearest_neighbor_loop :: "matrix \<Rightarrow> int list \<Rightarrow> route \<Rightarrow> int \<Rightarrow> error + route" where
  "nearest_neighbor_loop time_matrix unvisited route current =
     (if unvisited = [] then Inr route
      else case py_min (\<lambda>x. mat_get time_matrix current x) unvisited of
             Inl e \<Rightarrow> Inl e
           | Inr nearest \<Rightarrow>
               nearest_neighbor_loop time_matrix (remove1 nearest unvisited)
                 (route @ [nearest]) nearest)"
  by pat_completeness auto
termination
proof (relation "measure (\<lambda>(time_matrix, unvisited, route, current). length unvisited)")
  show "wf (measure (\<lambda>(time_matrix, unvisited, route, current). length unvisited))"
    by simp
next
  fix time_matrix :: matrix and unvisited :: "int list" and route :: route
    and current nearest :: int
  assume nonempty: "unvisited \<noteq> []"
    and found: "py_min (\<lambda>x. mat_get time_matrix current x) unvisited = Inr nearest"
  have step: "min_by f xs best k = Inr y \<Longrightarrow> y = best \<or> y \<in> set xs"
    for f :: "int \<Rightarrow> error + real" and xs best k y
    by (induction xs arbitrary: best k) (auto split: sum.splits if_splits)
  from found have "nearest \<in> set unvisited"
    by (cases unvisited) (auto simp: py_min_def split: sum.splits dest: step)
  then have "length (remove1 nearest unvisited) < length unvisited"
    by (simp add: length_remove1) (cases unvisited; simp)
  then show "((time_matrix, remove1 nearest unvisited, route @ [nearest], nearest),
              (time_matrix, unvisited, route, current))
             \<in> measure (\<lambda>(time_matrix, unvisited, route, current). length unvisited)"
    by simp
qed

definition nearest_neighbor :: "matrix \<Rightarrow> error + route" where
  "nearest_neighbor time_matrix =
     (let n = length time_matrix; unvisited = map int [1..<n]
      in nearest_neighbor_loop time_matrix unvisited [0] 0)"

text \<open>\<open>new_route[i:j] = reversed(new_route[i:j])\<close> for \<open>i \<le> j \<le> len(new_route)\<close>.\<close>

definition reverse_slice :: "nat \<Rightarrow> nat \<Rightarrow> 'a list \<Rightarrow> 'a list" where
  "reverse_slice i j xs = take i xs @ rev (take (j - i) (drop i xs)) @ drop j xs"

text \<open>
  The two inner loops of \<open>two_opt_improvement\<close>. Both are left by \<open>break\<close> at the first
  improvement, which is returned; \<open>None\<close> is a scan that found none.
\<close>

fun two_opt_scan_j ::
  "matrix \<Rightarrow> route \<Rightarrow> real \<Rightarrow> nat \<Rightarrow> nat list \<Rightarrow> error + (route \<times> real) option" where
  "two_opt_scan_j time_matrix best_route best_time i [] = Inr None"
| "two_opt_scan_j time_matrix best_route best_time i (j # js) =
     (let new_route = reverse_slice i j best_route in
      case calculate_route_time new_route time_matrix of
        Inl e \<Rightarrow> Inl e
      | Inr new_time \<Rightarrow>
          if new_time < best_time - 0.1 then Inr (Some (new_route, new_time))
          else two_opt_scan_j time_matrix best_route best_time i js)"

fun two_opt_scan_i ::
  "matrix \<Rightarrow> route \<Rightarrow> real \<Rightarrow> nat list \<Rightarrow> error + (route \<times> real) option" where
  "two_opt_scan_i time_matrix best_route best_time [] = Inr None"
| "two_opt_scan_i time_matrix best_route best_time (i # is) =
     (case two_opt_scan_j time_matrix best_route best_time i [i + 2..<length best_route] of
        Inl e \<Rightarrow> Inl e
      | Inr (Some r) \<Rightarrow> Inr (Some r)
      | Inr None \<Rightarrow> two_opt_scan_i time_matrix best_route best_time is)"

text \<open>The outer loop \<open>for _ in range(10)\<close>, with the number of rounds left.\<close>

fun two_opt_rounds :: "nat \<Rightarrow> matrix \<Rightarrow> route \<Rightarrow> real \<Rightarrow> error + route" where
  "two_opt_rounds 0 time_matrix best_route best_time = Inr best_route"
| "two_opt_rounds (Suc k) time_matrix best_route best_time =
     (case two_opt_scan_i time_matrix best_route best_time [1..<length best_route - 2] of
        Inl e \<Rightarrow> Inl e
      | Inr (Some (new_route, new_time)) \<Rightarrow> two_opt_rounds k time_matrix new_route new_time
      | Inr None \<Rightarrow> two_opt_rounds k time_matrix best_route best_time)"

definition two_opt_improvement :: "route \<Rightarrow> matrix \<Rightarrow> error + route" where
  "two_opt_improvement route time_matrix =
     (if length route \<le> 3 then Inr route
      else bind (calculate_route_time route time_matrix) (\<lambda>best_time.
           two_opt_rounds 10 time_matrix route best_time))"

text \<open>
  \<open>random_route\<close> shuffles \<open>route[1:]\<close>, a copy of the tail, and returns \<open>route\<close> itself:
  the identity order, whatever the random generator does.
\<close>

definition random_route :: "matrix \<Rightarrow> route" where
  "random_route time_matrix = 0 # map int [1..<length time_matrix]"

text \<open>\<open>min(strategies, key=lambda x: x[1])\<close> over the list of (route, time) pairs.\<close>

definition multi_strategy_optimize :: "matrix \<Rightarrow> error + route" where
  "multi_strategy_optimize time_matrix =
     bind (nearest_neighbor time_matrix) (\<lambda>nn_route.
     bind (calculate_route_time nn_route time_matrix) (\<lambda>nn_time.
     bind (two_opt_improvement nn_route time_matrix) (\<lambda>opt_route.
     bind (calculate_route_time opt_route time_matrix) (\<lambda>opt_time.
     bind (if length time_matrix > 3
           then bind (two_opt_improvement (random_route time_matrix) time_matrix) (\<lambda>random_opt.
                bind (calculate_route_time random_opt time_matrix) (\<lambda>random_time.
                Inr [(nn_route, nn_time), (opt_route, opt_time), (random_opt, random_time)]))
           else Inr [(nn_route, nn_time), (opt_route, opt_time)]) (\<lambda>strategies.
     bind (py_min (\<lambda>x. Inr (snd x)) strategies) (\<lambda>best. Inr (fst best)))))))"

text \<open>
  \<open>max(x, 5.0)\<close> returns \<open>x\<close> unless \<open>5.0 > x\<close>, so a \<open>nan\<close> stays. \<open>np_times b y\<close> is
  the product of the finite \<open>b\<close> with \<open>y\<close>: zero times an infinity is \<open>nan\<close>.
\<close>

fun py_max_5 :: "npfloat \<Rightarrow> npfloat" where
  "py_max_5 (Fin v) = (if 5 > v then Fin 5 else Fin v)"
| "py_max_5 NegInf = Fin 5"
| "py_max_5 x = x"

fun np_times :: "real \<Rightarrow> npfloat \<Rightarrow> npfloat" where
  "np_times b (Fin v) = Fin (b * v)"
| "np_times b NaN = NaN"
| "np_times b PosInf = (if b = 0 then NaN else if 0 < b then PosInf else NegInf)"
| "np_times b NegInf = (if b = 0 then NaN else if 0 < b then NegInf else PosInf)"

record simple_result =
  baseline_route :: route
  baseline_total_time :: real
  optimized_route :: route
  optimized_total_time :: real
  on_time_deliveries :: npfloat
  time_saved_minutes :: npfloat
  result_improvement_percent :: npfloat
  co2_savings_kg :: npfloat
  fuel_savings_liters :: npfloat

text \<open>
  \<open>SimpleRouteOptimizer.optimize_route\<close>. The wall-clock fields (\<open>solve_time\<close>,
  \<open>timestamp\<close>), the constant fields and the history list are not modelled; the parameter
  \<open>time_windows\<close> is never read by the source.
\<close>

definition optimize_route :: "matrix \<Rightarrow> error + simple_result" where
  "optimize_route time_matrix =
     bind (nearest_neighbor time_matrix) (\<lambda>b_route.
     bind (calculate_route_time b_route time_matrix) (\<lambda>b_time.
     bind (multi_strategy_optimize time_matrix) (\<lambda>o_route.
     bind (calculate_route_time o_route time_matrix) (\<lambda>o_time.
     bind (if length b_route < 2 \<and> length o_route < 2
           then py_div (b_time - o_time) b_time
           else Inr (np_div (b_time - o_time) b_time)) (\<lambda>q.
     let improvement = py_max_5 (np_scale 100 q);
         saved = np_times b_time (np_scale (1 / 100) improvement)
     in Inr \<lparr>baseline_route = b_route, baseline_total_time = b_time,
             optimized_route = o_route, optimized_total_time = o_time,
             on_time_deliveries = np_shift 95 (np_scale 0.5 improvement),
             time_saved_minutes = saved,
             result_improvement_percent = improvement,
             co2_savings_kg = np_scale 0.1 saved,
             fuel_savings_liters = np_scale 0.05 saved\<rparr>)))))"

section \<open>The traffic simulator (traffic\_simulator.py)\<close>

subsection \<open>\<open>TrafficPredictor\<close>\<close>

type_synonym coordinate = "real \<times> real"

definition radians :: "real \<Rightarrow> real" where
  "radians x = x * pi / 180"

definition haversine_distance :: "coordinate \<Rightarrow> coordinate \<Rightarrow> real" where
  "haversine_distance coord1 coord2 =
     (case coord1 of (lat1, lon1) \<Rightarrow> case coord2 of (lat2, lon2) \<Rightarrow>
      let lat1 = radians lat1; lon1 = radians lon1; lat2 = radians lat2; lon2 = radians lon2;
          dlat = lat2 - lat1;
          dlon = lon2 - lon1;
          a = (sin (dlat / 2))\<^sup>2 + cos lat1 * cos lat2 * (sin (dlon / 2))\<^sup>2;
          c = 2 * arcsin (sqrt a);
          r = 6371
      in c * r)"

definition base_speed_kmph :: real where
  "base_speed_kmph = 30"

definition peak_hours :: "(int \<times> int) list" where
  "peak_hours = [(7, 10), (17, 20)]"

definition weather_impact :: "(string \<times> real) list" where
  "weather_impact = [(''clear'', 1), (''rain'', 1.3), (''fog'', 1.5), (''storm'', 1.8)]"

text \<open>The loop over \<open>peak_hours\<close>, left by \<open>break\<close> at the first interval that holds the hour.\<close>

fun apply_peak_hours :: "(int \<times> int) list \<Rightarrow> int \<Rightarrow> real \<Rightarrow> real" where
  "apply_peak_hours [] hour multiplier = multiplier"
| "apply_peak_hours ((start_hour, end_hour) # rest) hour multiplier =
     (if start_hour \<le> hour \<and> hour \<le> end_hour then multiplier * 1.4
      else apply_peak_hours rest hour multiplier)"

definition get_time_multiplier :: "int \<Rightarrow> int \<Rightarrow> string \<Rightarrow> real" where
  "get_time_multiplier hour day_of_week weather =
     (let multiplier = apply_peak_hours peak_hours hour 1;
          multiplier = (if day_of_week \<ge> 5 then multiplier * 0.8 else multiplier)
      in multiplier * dict_get_default weather_impact weather 1)"

definition incident_multipliers :: "(string \<times> real) list" where
  "incident_multipliers =
     [(''accident'', 1.8), (''construction'', 1.5), (''road_closure'', 2),
      (''protest'', 1.6), (''none'', 1)]"

definition predict_incident_impact :: "string \<Rightarrow> real \<Rightarrow> real" where
  "predict_incident_impact incident_type severity =
     dict_get_default incident_multipliers incident_type 1 * severity"

subsection \<open>\<open>TrafficSimulator\<close>\<close>

text \<open>
  A naive \<open>datetime\<close> is the number of microseconds since 0001-01-01 00:00:00, a Monday;
  a \<open>timedelta\<close> is a number of microseconds. Only the operations of the source are
  modelled: the hour, the weekday (Monday is 0), \<open>replace(hour=h, minute=m)\<close>, the sum
  with a \<open>timedelta\<close> and the order.
\<close>

type_synonym datetime = int

definition dt_hour :: "datetime \<Rightarrow> int" where
  "dt_hour t = (t div 3600000000) mod 24"

definition dt_weekday :: "datetime \<Rightarrow> int" where
  "dt_weekday t = (t div 86400000000) mod 7"

definition dt_replace_hour_minute :: "datetime \<Rightarrow> int \<Rightarrow> int \<Rightarrow> datetime" where
  "dt_replace_hour_minute t h m =
     t - t mod 86400000000 + h * 3600000000 + m * 60000000 + t mod 60000000"

record incident =
  inc_type :: string
  inc_severity :: real
  inc_start_time :: datetime
  inc_end_time :: datetime
  inc_multiplier :: real

text \<open>The state of a simulator object: its dictionary \<open>self.incidents\<close>.\<close>

record traffic_simulator =
  incidents :: "(string \<times> incident) list"

text \<open>
  \<open>add_incident\<close>. \<open>now\<close> is the value that \<open>datetime.now()\<close> returns inside this call, read
  only when \<open>start_time\<close> is \<open>None\<close>; \<open>duration\<close> is \<open>timedelta(hours=duration_hours)\<close>.
\<close>

definition add_incident ::
  "traffic_simulator \<Rightarrow> string \<Rightarrow> string \<Rightarrow> real \<Rightarrow> datetime option \<Rightarrow> int \<Rightarrow> datetime
     \<Rightarrow> traffic_simulator" where
  "add_incident sim edge_id incident_type severity start_time duration now =
     (let start = (case start_time of None \<Rightarrow> now | Some t \<Rightarrow> t);
          end_time = start + duration
      in sim\<lparr>incidents := dict_set (incidents sim) edge_id
                \<lparr>inc_type = incident_type, inc_severity = severity,
                 inc_start_time = start, inc_end_time = end_time,
                 inc_multiplier = predict_incident_impact incident_type severity\<rparr>\<rparr>)"

definition get_edge_multiplier :: "traffic_simulator \<Rightarrow> string \<Rightarrow> datetime \<Rightarrow> real" where
  "get_edge_multiplier sim edge_id current_time =
     (case map_of (incidents sim) edge_id of
        None \<Rightarrow> 1
      | Some incident \<Rightarrow>
          if inc_start_time incident \<le> current_time \<and> current_time \<le> inc_end_time incident
          then inc_multiplier incident else 1)"

text \<open>The f-string \<open>f"{i}-{j}"\<close> of two non-negative integers.\<close>

definition digit_char :: "nat \<Rightarrow> char" where
  "digit_char d = ''0123456789'' ! d"

fun str_nat :: "nat \<Rightarrow> string" where
  "str_nat n = (if n < 10 then [digit_char n] else str_nat (n div 10) @ [digit_char (n mod 10)])"

declare str_nat.simps [simp del]

definition edge_id_of :: "nat \<Rightarrow> nat \<Rightarrow> string" where
  "edge_id_of i j = str_nat i @ ''-'' @ str_nat j"

text \<open>
  \<open>compute_travel_time_matrix\<close>: the matrix starts as \<open>np.zeros((n, n))\<close> and every entry
  off the diagonal is assigned once. \<open>now\<close> is the reading of \<open>datetime.now()\<close>, used when
  \<open>current_time\<close> is \<open>None\<close>. The source has no check of the coordinates and no \<open>raise\<close>,
  so the function has no error result.
\<close>

definition compute_travel_time_matrix ::
  "traffic_simulator \<Rightarrow> coordinate list \<Rightarrow> datetime option \<Rightarrow> string \<Rightarrow> datetime \<Rightarrow> matrix" where
  "compute_travel_time_matrix sim coords current_time weather now =
     (let current_time = (case current_time of None \<Rightarrow> now | Some t \<Rightarrow> t);
          n = length coords
      in map (\<lambda>i. map (\<lambda>j.
           if i = j then 0
           else let distance_km = haversine_distance (coords ! i) (coords ! j);
                    base_time_minutes = (distance_km / base_speed_kmph) * 60;
                    hour = dt_hour current_time;
                    day_of_week = dt_weekday current_time;
                    time_multiplier = get_time_multiplier hour day_of_week weather;
                    incident_multiplier = get_edge_multiplier sim (edge_id_of i j) current_time
                in base_time_minutes * time_multiplier * incident_multiplier) [0..<n]) [0..<n])"

record scenario_result =
  res_time_matrix :: matrix
  res_scenario :: string
  res_weather :: string
  res_current_time :: datetime
  res_incidents :: "(string \<times> incident) list"

text \<open>
  \<open>simulate_scenario\<close>. The method reads the clock once itself (\<open>now\<close>), and every
  \<open>add_incident\<close> it calls reads the clock again: \<open>clock k\<close> is the reading inside the
  \<open>k\<close>-th such call. The default duration is two hours. A scenario name outside the four
  branches leaves \<open>weather\<close> unassigned, and reading it raises UnboundLocalError. The
  result is the new state of the simulator with the returned dictionary.
\<close>

definition two_hours :: int where
  "two_hours = 7200000000"

definition simulate_scenario ::
  "traffic_simulator \<Rightarrow> coordinate list \<Rightarrow> string \<Rightarrow> datetime \<Rightarrow> (nat \<Rightarrow> datetime)
     \<Rightarrow> error + (traffic_simulator \<times> scenario_result)" where
  "simulate_scenario sim coords scenario now clock =
     (let finish = (\<lambda>sim' current_time weather.
            Inr (sim', \<lparr>res_time_matrix =
                          compute_travel_time_matrix sim' coords (Some current_time) weather now,
                        res_scenario = scenario, res_weather = weather,
                        res_current_time = current_time,
                        res_incidents = incidents sim'\<rparr>))
      in if scenario = ''normal'' then finish sim now ''clear''
         else if scenario = ''peak'' then finish sim (dt_replace_hour_minute now 8 30) ''clear''
         else if scenario = ''incident'' then
           finish (add_incident
                     (add_incident sim ''0-1'' ''accident'' 1.5 None two_hours (clock 0))
                     ''1-2'' ''construction'' 1.2 None two_hours (clock 1))
                  now ''rain''
         else if scenario = ''storm'' then
           finish (fold (\<lambda>i sim. add_incident sim (edge_id_of i (i + 1)) ''road_closure'' 2
                                   None two_hours (clock i))
                     [0..<length coords - 1] sim)
                  now ''storm''
         else Inl UnboundLocalError)"

text \<open>A coordinate in range: latitude within \<open>[-90, 90]\<close>, longitude within \<open>[-180, 180]\<close>.\<close>

definition valid_coordinate :: "coordinate \<Rightarrow> bool" where
  "valid_coordinate c = (- 90 \<le> fst c \<and> fst c \<le> 90 \<and> - 180 \<le> snd c \<and> snd c \<le> 180)"

subsection \<open>Coordinates that are not finite\<close>

text \<open>
  A Python float can be \<open>nan\<close> or an infinity, and the source takes such a latitude or
  longitude like any other. Every intermediate value of the haversine formula is then
  \<open>nan\<close>: the sine of an infinity is \<open>nan\<close>, and \<open>nan\<close> goes through the sum, the square root
  and the arc sine. On finite coordinates the distance is the one of \<open>haversine_distance\<close>,
  in real arithmetic. Rounding is not modelled: in floating point it can make the argument
  of the square root slightly negative for a latitude out of range, and the distance
  \<open>nan\<close>, so the statements about the sign of the entries are for coordinates in range.
\<close>

type_synonym np_coordinate = "npfloat \<times> npfloat"

fun haversine_distance_np :: "np_coordinate \<Rightarrow> np_coordinate \<Rightarrow> npfloat" where
  "haversine_distance_np (Fin lat1, Fin lon1) (Fin lat2, Fin lon2) =
     Fin (haversine_distance (lat1, lon1) (lat2, lon2))"
| "haversine_distance_np coord1 coord2 = NaN"

text \<open>
  \<open>compute_travel_time_matrix\<close> on such coordinates: the entries are floats that can be
  \<open>nan\<close>, the diagonal keeps the \<open>0.0\<close> of \<open>np.zeros\<close>, and a product with \<open>nan\<close> is \<open>nan\<close>.
\<close>

definition compute_travel_time_matrix_np ::
  "traffic_simulator \<Rightarrow> np_coordinate list \<Rightarrow> datetime option \<Rightarrow> string \<Rightarrow> datetime
     \<Rightarrow> npfloat list list" where
  "compute_travel_time_matrix_np sim coords current_time weather now =
     (let current_time = (case current_time of None \<Rightarrow> now | Some t \<Rightarrow> t);
          n = length coords
      in map (\<lambda>i. map (\<lambda>j.
           if i = j then Fin 0
           else let distance_km = haversine_distance_np (coords ! i) (coords ! j);
                    base_time_minutes = np_times 60 (np_times (1 / base_speed_kmph) distance_km);
                    hour = dt_hour current_time;
                    day_of_week = dt_weekday current_time;
                    time_multiplier = get_time_multiplier hour day_of_week weather;
                    incident_multiplier = get_edge_multiplier sim (edge_id_of i j) current_time
                in np_times incident_multiplier (np_times time_multiplier base_time_minutes))
           [0..<n]) [0..<n])"


section \<open>Predicates of the statements\<close>

text \<open>
  An \<open>n\<close> by \<open>n\<close> matrix, an index that numpy accepts on an axis of length \<open>n\<close>, and the
  outcome of one scan of the 2-opt loops: no candidate, or a rearrangement of the current
  route with the same first node whose time is below the current time by more than 0.1.
\<close>

definition square_matrix :: "nat \<Rightarrow> matrix \<Rightarrow> bool" where
  "square_matrix n M = (length M = n \<and> list_all (\<lambda>row. length row = n) M)"

definition in_range :: "nat \<Rightarrow> int \<Rightarrow> bool" where
  "in_range n i = (- int n \<le> i \<and> i < int n)"

definition improving :: "matrix \<Rightarrow> route \<Rightarrow> real \<Rightarrow> (route \<times> real) option \<Rightarrow> bool" where
  "improving M br bt res =
     (case res of None \<Rightarrow> True
      | Some (r, t) \<Rightarrow> mset r = mset br \<and> hd r = hd br
                        \<and> calculate_route_time r M = Inr t \<and> t < bt - 0.1)"

text \<open>A simulator none of whose registered incidents has a negative multiplier.\<close>

definition nonneg_incidents :: "traffic_simulator \<Rightarrow> bool" where
  "nonneg_incidents sim = list_all (\<lambda>p. 0 \<le> inc_multiplier (snd p)) (incidents sim)"


section \<open>Properties of the solver chain and the encoder\<close>

subsection \<open>Helper facts\<close>

lemma bind_Inr [simp]: "bind (Inr x) f = f x"
  by (simp add: bind_def)

lemma bind_Inl [simp]: "bind (Inl e) f = Inl e"
  by (simp add: bind_def)

lemma for_each_keys_fail:
  "k \<in> set ks \<Longrightarrow> length k \<noteq> 2 \<Longrightarrow>
   for_each ks (\<lambda>k vars. bind (unpack2 k) (\<lambda>(i, j). Inr (f i j vars))) s = Inl ValueError"
proof (induction ks arbitrary: s)
  case Nil then show ?case by simp
next
  case (Cons a ks)
  show ?case
  proof (cases "unpack2 a")
    case (Inl e)
    then have "e = ValueError" by (cases a rule: unpack2.cases) auto
    with Inl show ?thesis by (simp add: bind_def)
  next
    case (Inr p)
    then have "length a = 2" by (cases a rule: unpack2.cases) auto
    with Cons.prems have "k \<in> set ks" by auto
    with Cons.IH Cons.prems Inr show ?thesis by (simp add: bind_def split: prod.splits)
  qed
qed

lemma solve_greedy_bad_key:
  assumes "(k, c) \<in> set Q" and "length k \<noteq> 2"
  shows "solve_greedy Q = Inl ValueError"
proof -
  from assms(1) have "k \<in> set (map fst Q)" by force
  then have "collect_variables Q = Inl ValueError"
    unfolding collect_variables_def using assms(2) by (rule for_each_keys_fail)
  then show ?thesis by (simp add: solve_greedy_def bind_def)
qed

lemma build_var_index_2:
  "build_var_index (Suc (Suc 0)) = [((0, 0), 0), ((0, 1), 1), ((1, 0), 2), ((1, 1), 3)]"
  by (simp add: build_var_index_def upt_rec)

lemma upt_0_2: "[0..<Suc (Suc 0)] = [0, 1]"
  by (simp add: upt_rec)

lemma encoder_2x2:
  "build_time_dependent_tsp_qubo 100 [[0, 3], [4, 0]] None None =
   Inr ([([Idx 0, Idx 3], 3), ([Idx 2, Idx 1], 4), ([Idx 1, Idx 2], 3),
         ([Idx 3, Idx 0], 4), ([Idx 0, Idx 1], 200), ([Idx 0, Idx 0], - 400),
         ([Idx 1, Idx 1], - 400), ([Str ''const''], 400),
         ([Idx 2, Idx 3], 200), ([Idx 2, Idx 2], - 400),
         ([Idx 3, Idx 3], - 400), ([Idx 0, Idx 2], 200),
         ([Idx 1, Idx 3], 200)],
        [((0, 0), 0), ((0, 1), 1), ((1, 0), 2), ((1, 1), 3)])"
  by (simp add: build_time_dependent_tsp_qubo_def build_var_index_2 Let_def upt_0_2
      add_objective_def bind_def dict_get_def mat_get_def py_index_def dict_add_def
      dict_get_default_def add_node_constraints_def add_position_constraints_def
      one_hot_penalty_def)

subsection \<open>The greedy fallback on the encoder's dictionaries\<close>

text \<open>
  Claim C1 says that \<open>solve_qubo\<close> returns an assignment for every dictionary of the
  encoder and every solver selection, the greedy solver being the fallback that always
  succeeds. The encoder stores its constant under the key \<open>('const',)\<close>, a tuple of one
  element, and the first loop of the greedy solver unpacks every key into two names. On
  the dictionary of the 2 by 2 matrix \<open>[[0, 3], [4, 0]]\<close> the call raises ValueError, both
  when the greedy solver is selected and when the chain falls back to it after a failure
  of the neal backend.
\<close>

theorem solve_qubo_raises_on_encoder_output:
  "bind (build_time_dependent_tsp_qubo 100 [[0, 3], [4, 0]] None None)
     (\<lambda>(Q, var_index).
        solve_qubo \<lparr>solver_type = ''greedy'', available_solvers = [''greedy'']\<rparr> b Q)
   = Inl ValueError
   \<and> bind (build_time_dependent_tsp_qubo 100 [[0, 3], [4, 0]] None None)
     (\<lambda>(Q, var_index).
        solve_qubo \<lparr>solver_type = ''auto'', available_solvers = [''neal'', ''greedy'']\<rparr>
          (b\<lparr>neal_sample := \<lambda>Q. Inl BackendError\<rparr>) Q)
   = Inl ValueError"
proof -
  obtain Q vi where enc: "build_time_dependent_tsp_qubo 100 [[0, 3], [4, 0]] None None = Inr (Q, vi)"
    and mem: "([Str ''const''], 400) \<in> set Q"
    using encoder_2x2 by simp
  have "solve_greedy Q = Inl ValueError"
    by (rule solve_greedy_bad_key[OF mem]) simp
  then show ?thesis
    by (simp add: enc bind_def solve_qubo_def get_best_solver_def solve_neal_def
        with_fallback_def)
qed

subsection \<open>The variable mapping and the penalty of a one-hot group, for every size\<close>

text \<open>
  Adding \<open>c\<close> under a key adds \<open>c\<close> times the value of that key's term to the energy, so
  the energy after a constraint loop is the energy before it plus the sum of what was
  added.
\<close>

lemma dict_get_default_Cons:
  "dict_get_default ((k', v') # d) k z = (if k' = k then v' else dict_get_default d k z)"
  by (simp add: dict_get_default_def)

lemma qubo_energy_Cons: "qubo_energy ((k, c) # Q) x = c * term_value x k + qubo_energy Q x"
  by (simp add: qubo_energy_def)

lemma qubo_energy_dict_add:
  "qubo_energy (dict_add Q k c) x = qubo_energy Q x + c * term_value x k"
proof (induction Q)
  case Nil
  then show ?case by (simp add: dict_add_def dict_get_default_def qubo_energy_def)
next
  case (Cons e Q)
  obtain k' v' where e: "e = (k', v')" by (cases e)
  show ?case
  proof (cases "k' = k")
    case True
    then show ?thesis
      by (simp add: e dict_add_def dict_get_default_Cons qubo_energy_Cons algebra_simps)
  next
    case False
    have "dict_add (e # Q) k c = (k', v') # dict_add Q k c"
      using False by (simp add: e dict_add_def dict_get_default_Cons)
    then show ?thesis using Cons.IH by (simp add: e qubo_energy_Cons)
  qed
qed

lemma qubo_energy_fold_dict_add:
  "qubo_energy (fold (\<lambda>a Q. dict_add Q (key a) (c a)) xs Q) x =
   qubo_energy Q x + (\<Sum>a\<leftarrow>xs. c a * term_value x (key a))"
  by (induction xs arbitrary: Q) (simp_all add: qubo_energy_dict_add)

lemma sum_list_zero_terms:
  "\<forall>b \<in> set vars. f b = (0 :: real) \<Longrightarrow> (\<Sum>b\<leftarrow>vars. f b) = 0"
  by (induction vars) simp_all

lemma sum_list_neg_scaled:
  "(\<Sum>a\<leftarrow>vars. - (c * f a)) = - (c * (\<Sum>a\<leftarrow>vars. f a :: real))"
  by (induction vars) (simp_all add: algebra_simps)

lemma qubo_energy_one_hot_penalty:
  "qubo_energy (one_hot_penalty lam vars Q) x =
   qubo_energy Q x
   + 2 * lam * (\<Sum>(a, b)\<leftarrow>combinations2 vars. real (x a) * real (x b))
   - 2 * lam * (\<Sum>a\<leftarrow>vars. real (x a) * real (x a))
   + lam"
proof -
  have pairs: "(\<lambda>(a, b) Q. dict_add Q [Idx a, Idx b] (2 * lam)) =
               (\<lambda>p Q. dict_add Q [Idx (fst p), Idx (snd p)] (2 * lam))"
    by (simp add: fun_eq_iff split: prod.splits)
  have s1: "(\<Sum>p\<leftarrow>combinations2 vars. 2 * lam * term_value x [Idx (fst p), Idx (snd p)]) =
            2 * lam * (\<Sum>(a, b)\<leftarrow>combinations2 vars. real (x a) * real (x b))"
    by (simp add: sum_list_const_mult case_prod_unfold)
  have s2: "(\<Sum>a\<leftarrow>vars. - 2 * lam * term_value x [Idx a, Idx a]) =
            - (2 * lam * (\<Sum>a\<leftarrow>vars. real (x a) * real (x a)))"
    by (simp add: sum_list_neg_scaled)
  show ?thesis
    unfolding one_hot_penalty_def Let_def pairs
    by (simp only: qubo_energy_dict_add qubo_energy_fold_dict_add s1 s2) simp
qed

lemma sum_zero_pairs_zero:
  "sum_list (map x vars) = (0 :: nat) \<Longrightarrow>
   (\<Sum>(a, b)\<leftarrow>combinations2 vars. real (x a) * real (x b)) = 0"
proof (induction vars)
  case Nil
  then show ?case by simp
next
  case (Cons a vars)
  then have "x a = 0" "sum_list (map x vars) = 0" by simp_all
  with Cons.IH show ?case by (simp add: comp_def)
qed

lemma one_hot_pairs_zero:
  "sum_list (map x vars) = (1 :: nat) \<Longrightarrow>
   (\<Sum>(a, b)\<leftarrow>combinations2 vars. real (x a) * real (x b)) = 0"
proof (induction vars)
  case Nil
  then show ?case by simp
next
  case (Cons a vars)
  from Cons.prems consider "x a = 1" "sum_list (map x vars) = 0"
    | "x a = 0" "sum_list (map x vars) = 1" by (cases "x a") auto
  then show ?case
  proof cases
    case 1
    then have all0: "\<forall>b \<in> set vars. x b = 0" by simp
    then have "(\<Sum>b\<leftarrow>vars. real (x a) * real (x b)) = 0"
      by (intro sum_list_zero_terms) simp
    with sum_zero_pairs_zero[OF 1(2)] show ?thesis by (simp add: comp_def)
  next
    case 2
    with Cons.IH show ?thesis by (simp add: comp_def)
  qed
qed

lemma one_hot_squares:
  "sum_list (map x vars) = (1 :: nat) \<Longrightarrow> (\<Sum>a\<leftarrow>vars. real (x a) * real (x a)) = 1"
proof (induction vars)
  case Nil
  then show ?case by simp
next
  case (Cons a vars)
  from Cons.prems consider "x a = 1" "sum_list (map x vars) = 0"
    | "x a = 0" "sum_list (map x vars) = 1" by (cases "x a") auto
  then show ?case
  proof cases
    case 1
    then have "\<forall>b \<in> set vars. x b = 0" by simp
    then have "(\<Sum>b\<leftarrow>vars. real (x b) * real (x b)) = 0"
      by (intro sum_list_zero_terms) simp
    with 1 show ?thesis by simp
  next
    case 2
    with Cons.IH show ?thesis by simp
  qed
qed

lemma one_hot_penalty_on_one_hot_group:
  "sum_list (map x vars) = (1 :: nat) \<Longrightarrow>
   qubo_energy (one_hot_penalty lam vars Q) x = qubo_energy Q x - lam"
  by (simp add: qubo_energy_one_hot_penalty one_hot_pairs_zero one_hot_squares)

text \<open>
  The variable mapping has one entry for every pair \<open>(i, p)\<close> with \<open>i, p < N\<close>, numbered
  \<open>i * N + p\<close>: \<open>N\<^sup>2\<close> entries.
\<close>

lemma map_of_dict_set: "map_of (dict_set d k v) = (map_of d)(k \<mapsto> v)"
  by (induction d) (auto simp: fun_eq_iff)

lemma fst_set_dict_set: "fst ` set (dict_set d k v) = insert k (fst ` set d)"
proof (induction d)
  case Nil
  then show ?case by simp
next
  case (Cons e d)
  obtain k' v' where e: "e = (k', v')" by (cases e)
  show ?case
  proof (cases "k' = k")
    case True
    then show ?thesis by (simp add: e)
  next
    case False
    then show ?thesis using Cons.IH by (simp add: e insert_commute)
  qed
qed

lemma distinct_dict_set: "distinct (map fst d) \<Longrightarrow> distinct (map fst (dict_set d k v))"
proof (induction d)
  case Nil
  then show ?case by simp
next
  case (Cons e d)
  obtain k' v' where e: "e = (k', v')" by (cases e)
  show ?case
  proof (cases "k' = k")
    case True
    then show ?thesis using Cons.prems by (simp add: e)
  next
    case False
    have "k' \<notin> fst ` set (dict_set d k v)"
      using False Cons.prems by (simp add: e fst_set_dict_set)
    then show ?thesis using False Cons by (simp add: e)
  qed
qed

lemma var_index_inner:
  fixes i m idx :: nat and vi :: tsp_var_index
  shows "\<exists>vi'. fold (\<lambda>p (var_index, idx). (dict_set var_index (i, p) idx, idx + 1)) [0..<m] (vi, idx)
           = (vi', idx + m)
       \<and> map_of vi' = (\<lambda>k. if fst k = i \<and> snd k < m then Some (idx + snd k) else map_of vi k)
       \<and> (distinct (map fst vi) \<longrightarrow> distinct (map fst vi'))"
proof (induction m)
  case 0
  then show ?case by simp
next
  case (Suc m)
  let ?step = "\<lambda>p (var_index, idx). (dict_set var_index (i, p) idx, idx + 1)"
  from Suc obtain v where prev: "fold ?step [0..<m] (vi, idx) = (v, idx + m)"
    and mp: "map_of v = (\<lambda>k. if fst k = i \<and> snd k < m then Some (idx + snd k) else map_of vi k)"
    and ds: "distinct (map fst vi) \<longrightarrow> distinct (map fst v)"
    by blast
  have "[0..<Suc m] = [0..<m] @ [m]"
    by simp
  then have "fold ?step [0..<Suc m] (vi, idx) = ?step m (fold ?step [0..<m] (vi, idx))"
    by (simp only: fold_append fold_simps comp_apply id_apply)
  also have "\<dots> = ?step m (v, idx + m)"
    by (simp only: prev)
  also have "\<dots> = (dict_set v (i, m) (idx + m), idx + Suc m)"
    by simp
  finally have step:
    "fold ?step [0..<Suc m] (vi, idx) = (dict_set v (i, m) (idx + m), idx + Suc m)" .
  have "map_of (dict_set v (i, m) (idx + m)) =
        (\<lambda>k. if fst k = i \<and> snd k < Suc m then Some (idx + snd k) else map_of vi k)"
  proof
    fix k :: "nat \<times> nat"
    show "map_of (dict_set v (i, m) (idx + m)) k =
          (if fst k = i \<and> snd k < Suc m then Some (idx + snd k) else map_of vi k)"
      by (cases k) (auto simp: map_of_dict_set mp less_Suc_eq)
  qed
  moreover have "distinct (map fst vi) \<longrightarrow> distinct (map fst (dict_set v (i, m) (idx + m)))"
    using ds by (simp add: distinct_dict_set)
  ultimately show ?case using step by blast
qed

lemma var_index_outer:
  fixes n N :: nat
  shows "\<exists>vi :: tsp_var_index. fold (\<lambda>i. fold (\<lambda>p (var_index, idx). (dict_set var_index (i, p) idx, idx + 1)) [0..<N])
          [0..<n] ([], 0 :: nat) = (vi, n * N)
       \<and> map_of vi = (\<lambda>k. if fst k < n \<and> snd k < N then Some (fst k * N + snd k) else None)
       \<and> distinct (map fst vi)"
proof (induction n)
  case 0
  then show ?case by simp
next
  case (Suc n)
  let ?inner = "\<lambda>i. fold (\<lambda>p (var_index, idx). (dict_set var_index (i, p) idx, idx + 1)) [0..<N]"
  from Suc obtain v where prev: "fold ?inner [0..<n] ([], 0) = (v, n * N)"
    and mp: "map_of v = (\<lambda>k. if fst k < n \<and> snd k < N then Some (fst k * N + snd k) else None)"
    and ds: "distinct (map fst v)"
    by blast
  from var_index_inner[of n N v "n * N"] ds obtain vi where
    inner: "?inner n (v, n * N) = (vi, n * N + N)"
    and mp': "map_of vi = (\<lambda>k. if fst k = n \<and> snd k < N then Some (n * N + snd k) else map_of v k)"
    and ds': "distinct (map fst vi)"
    by blast
  have "[0..<Suc n] = [0..<n] @ [n]"
    by simp
  then have "fold ?inner [0..<Suc n] ([], 0) = ?inner n (fold ?inner [0..<n] ([], 0))"
    by (simp only: fold_append fold_simps comp_apply id_apply)
  also have "\<dots> = ?inner n (v, n * N)"
    by (simp only: prev)
  also have "\<dots> = (vi, n * N + N)"
    by (rule inner)
  finally have step: "fold ?inner [0..<Suc n] ([], 0) = (vi, Suc n * N)"
    by (simp add: add.commute)
  have "map_of vi = (\<lambda>k. if fst k < Suc n \<and> snd k < N then Some (fst k * N + snd k) else None)"
  proof
    fix k :: "nat \<times> nat"
    show "map_of vi k = (if fst k < Suc n \<and> snd k < N then Some (fst k * N + snd k) else None)"
      by (cases k) (auto simp: mp' mp less_Suc_eq)
  qed
  with step ds' show ?case by blast
qed

lemma map_of_build_var_index:
  "map_of (build_var_index N) =
   (\<lambda>k. if fst k < N \<and> snd k < N then Some (fst k * N + snd k) else None)"
  using var_index_outer[of N N] by (auto simp: build_var_index_def)

lemma distinct_build_var_index: "distinct (map fst (build_var_index N))"
  using var_index_outer[of N N] by (auto simp: build_var_index_def)

lemma length_build_var_index: "length (build_var_index N) = N * N"
proof -
  have "dom (map_of (build_var_index N)) = {..<N} \<times> {..<N}"
    by (auto simp: map_of_build_var_index dom_def)
  then have "card (fst ` set (build_var_index N)) = N * N"
    by (simp add: dom_map_of_conv_image_fst)
  moreover have "card (fst ` set (build_var_index N)) = length (build_var_index N)"
    using distinct_build_var_index[of N] by (metis distinct_card length_map set_map)
  ultimately show ?thesis by simp
qed

lemma dict_get_build_var_index:
  "i < N \<Longrightarrow> p < N \<Longrightarrow> dict_get (build_var_index N) (i, p) = Inr (i * N + p)"
  by (simp add: dict_get_def map_of_build_var_index)

text \<open>
  No lookup of the two constraint loops fails, and on a valid one-hot assignment each of
  the \<open>2 * N\<close> groups lowers the energy by \<open>lam\<close>.
\<close>

lemma map_err_Inr: "\<forall>x \<in> set xs. f x = Inr (g x) \<Longrightarrow> map_err f xs = Inr (map g xs)"
  by (induction xs) (simp_all add: bind_def)

lemma for_each_pure:
  "\<forall>a \<in> set xs. \<forall>s. body a s = Inr (g a s) \<Longrightarrow> for_each xs body s = Inr (fold g xs s)"
  by (induction xs arbitrary: s) simp_all

lemma qubo_energy_fold_one_hot:
  "\<forall>a \<in> set xs. sum_list (map x (vars a)) = (1 :: nat) \<Longrightarrow>
   qubo_energy (fold (\<lambda>a Q. one_hot_penalty lam (vars a) Q) xs Q) x =
   qubo_energy Q x - real (length xs) * lam"
  by (induction xs arbitrary: Q) (simp_all add: one_hot_penalty_on_one_hot_group algebra_simps)

lemma add_node_constraints_pure:
  "add_node_constraints lam (build_var_index N) N Q =
   Inr (fold (\<lambda>i Q. one_hot_penalty lam (map (\<lambda>p. i * N + p) [0..<N]) Q) [0..<N] Q)"
  unfolding add_node_constraints_def
proof (rule for_each_pure, intro ballI allI)
  fix i s assume "i \<in> set [0..<N]"
  then have i: "i < N" by simp
  have "map_err (\<lambda>p. dict_get (build_var_index N) (i, p)) [0..<N] = Inr (map (\<lambda>p. i * N + p) [0..<N])"
    by (rule map_err_Inr) (simp add: dict_get_build_var_index i)
  then show "bind (map_err (\<lambda>p. dict_get (build_var_index N) (i, p)) [0..<N])
               (\<lambda>vars_i. Inr (one_hot_penalty lam vars_i s)) =
             Inr (one_hot_penalty lam (map (\<lambda>p. i * N + p) [0..<N]) s)"
    by (simp add: bind_def)
qed

lemma add_position_constraints_pure:
  "add_position_constraints lam (build_var_index N) N Q =
   Inr (fold (\<lambda>p Q. one_hot_penalty lam (map (\<lambda>i. i * N + p) [0..<N]) Q) [0..<N] Q)"
  unfolding add_position_constraints_def
proof (rule for_each_pure, intro ballI allI)
  fix p s assume "p \<in> set [0..<N]"
  then have p: "p < N" by simp
  have "map_err (\<lambda>i. dict_get (build_var_index N) (i, p)) [0..<N] = Inr (map (\<lambda>i. i * N + p) [0..<N])"
    by (rule map_err_Inr) (simp add: dict_get_build_var_index p)
  then show "bind (map_err (\<lambda>i. dict_get (build_var_index N) (i, p)) [0..<N])
               (\<lambda>vars_p. Inr (one_hot_penalty lam vars_p s)) =
             Inr (one_hot_penalty lam (map (\<lambda>i. i * N + p) [0..<N]) s)"
    by (simp add: bind_def)
qed

lemma tsp_penalty_contribution:
  assumes rows: "\<forall>i < N. (\<Sum>p\<leftarrow>[0..<N]. x (i * N + p)) = (1 :: nat)"
    and cols: "\<forall>p < N. (\<Sum>i\<leftarrow>[0..<N]. x (i * N + p)) = (1 :: nat)"
  shows "\<exists>Q'. bind (add_node_constraints lam (build_var_index N) N Q)
                 (add_position_constraints lam (build_var_index N) N) = Inr Q'
              \<and> qubo_energy Q' x = qubo_energy Q x - 2 * real N * lam"
proof -
  let ?Q1 = "fold (\<lambda>i Q. one_hot_penalty lam (map (\<lambda>p. i * N + p) [0..<N]) Q) [0..<N] Q"
  let ?Q2 = "fold (\<lambda>p Q. one_hot_penalty lam (map (\<lambda>i. i * N + p) [0..<N]) Q) [0..<N] ?Q1"
  have e1: "qubo_energy ?Q1 x = qubo_energy Q x - real (length [0..<N]) * lam"
    by (rule qubo_energy_fold_one_hot) (simp add: rows comp_def)
  have e2: "qubo_energy ?Q2 x = qubo_energy ?Q1 x - real (length [0..<N]) * lam"
    by (rule qubo_energy_fold_one_hot) (simp add: cols comp_def)
  have "bind (add_node_constraints lam (build_var_index N) N Q)
          (add_position_constraints lam (build_var_index N) N) = Inr ?Q2"
    by (simp add: add_node_constraints_pure add_position_constraints_pure bind_def)
  moreover have "qubo_energy ?Q2 x = qubo_energy Q x - 2 * real N * lam"
    using e1 e2 by (simp add: algebra_simps)
  ultimately show ?thesis by blast
qed

subsection \<open>The one-hot penalty of the TSP encoder\<close>

text \<open>
  Claim C2 says that the encoder makes \<open>N\<^sup>2\<close> variables and that the two families of
  one-hot penalties add exactly 0 to the energy of a valid one-hot assignment. For
  \<open>N = 2\<close> there are 4 variables. Under the valid assignment that puts node 0 at position 0
  and node 1 at position 1 (variables 0 and 3), the two constraint loops, run on an empty
  dictionary with any weight \<open>lam\<close>, give the energy \<open>-4 * lam\<close>: every group adds
  \<open>-2 * lam\<close> on the diagonal of its one active variable and \<open>lam\<close> to the constant, where
  the expansion of \<open>lam * (\<Sum>x - 1)\<^sup>2\<close> has \<open>-lam\<close> on the diagonal. The lemmas above give
  the same for every size: \<open>N\<^sup>2\<close> variables, and \<open>-2 * N * lam\<close> added on every valid
  one-hot assignment.
\<close>

theorem tsp_penalty_on_valid_assignment:
  "length (build_var_index 2) = 4
   \<and> bind (add_node_constraints lam (build_var_index 2) 2 []) (\<lambda>Q.
     bind (add_position_constraints lam (build_var_index 2) 2 Q) (\<lambda>Q.
     Inr (qubo_energy Q (\<lambda>v. if v = 0 \<or> v = 3 then 1 else 0)))) = Inr (- 4 * lam)"
  by (simp add: numeral_2_eq_2 build_var_index_2 upt_0_2 bind_def dict_get_def dict_add_def
      dict_get_default_def add_node_constraints_def add_position_constraints_def
      one_hot_penalty_def qubo_energy_def Let_def)

subsection \<open>Coverage of the greedy assignment\<close>

text \<open>
  Claim C4 says that the assignment of the greedy solver has an entry for every variable
  of a quadratic or diagonal term. The set \<open>variables\<close> is filled from the keys with
  \<open>i != j\<close> only, and a diagonal term sets its variable only when the coefficient is
  negative: on \<open>Q = {(0, 0): 5.0}\<close> the returned assignment is empty.
\<close>

theorem greedy_omits_diagonal_only_variable:
  "solve_greedy [([Idx 0, Idx 0], 5)] = Inr (Map.empty, 0)"
  by (simp add: solve_greedy_def collect_variables_def collect_linear_terms_def bind_def
      assign_greedily_def add_quadratic_terms_def dict_get_default_def)

section \<open>Properties of the VRP decoder\<close>

text \<open>
  With the edges \<open>0 \<rightarrow> 1\<close>, \<open>1 \<rightarrow> 2\<close> and \<open>2 \<rightarrow> 1\<close> the walk never returns once it has
  reached node 1 or node 2: every result of the loop would be the result of a later round.
\<close>

lemma walk_cycle_aux:
  assumes "walk es c r = Some y"
  shows "\<not> (es = [(0, 1), (1, 2), (2, 1)] \<and> (c = 1 \<or> c = 2))"
proof (rule walk.raw_induct[OF _ assms])
  fix w :: "(nat \<times> nat) list \<Rightarrow> nat \<Rightarrow> nat list \<Rightarrow> nat list option"
  fix es c r y
  assume IH: "\<And>es c r y. w es c r = Some y \<Longrightarrow>
                \<not> (es = [(0, 1), (1, 2), (2, 1)] \<and> (c = 1 \<or> c = 2))"
  assume step: "(case find (\<lambda>(i, j). i = c) es of None \<Rightarrow> Some r
      | Some (i, next_node) \<Rightarrow>
          if next_node = 0 then Some r else w es next_node (r @ [next_node])) = Some y"
  show "\<not> (es = [(0, 1), (1, 2), (2, 1)] \<and> (c = 1 \<or> c = 2))"
  proof
    assume a: "es = [(0, 1), (1, 2), (2, 1)] \<and> (c = 1 \<or> c = 2)"
    then consider "c = 1" | "c = 2" by blast
    then show False
    proof cases
      case 1
      with a step have "w es 2 (r @ [2]) = Some y" by simp
      with IH a show False by blast
    next
      case 2
      with a step have "w es 1 (r @ [1]) = Some y" by simp
      with IH a show False by blast
    qed
  qed
qed

lemma walk_cycle: "walk [(0, 1), (1, 2), (2, 1)] 1 r = None"
  using walk_cycle_aux[of "[(0, 1), (1, 2), (2, 1)]" 1 r]
  by (cases "walk [(0, 1), (1, 2), (2, 1)] 1 r") auto

lemma build_vrp_var_index_3_1:
  "build_vrp_var_index 3 (Suc 0) =
   [((0, 1, 0), 0), ((0, 2, 0), 1), ((1, 0, 0), 2), ((1, 2, 0), 3),
    ((2, 0, 0), 4), ((2, 1, 0), 5)]"
  by (simp add: build_vrp_var_index_def upt_rec)

text \<open>
  Claim C3 says that the VRP decoder terminates on every binary assignment, also when the
  selected edges of a vehicle form a cycle that does not return to the depot. For three
  nodes and one vehicle the variables 0, 3 and 5 are the edges \<open>0 \<rightarrow> 1\<close>, \<open>1 \<rightarrow> 2\<close> and
  \<open>2 \<rightarrow> 1\<close>; on the assignment that sets exactly these the \<open>while True\<close> loop never
  reaches a \<open>break\<close>, and the decoder does not return.
\<close>

theorem vrp_decoder_loops_on_depotless_cycle:
  "extract_vrp_solution [Idx 0 \<mapsto> 1, Idx 3 \<mapsto> 1, Idx 5 \<mapsto> 1] (build_vrp_var_index 3 1) = None"
proof -
  have g: "group_by_vehicle [Idx 0 \<mapsto> 1, Idx 3 \<mapsto> 1, Idx 5 \<mapsto> 1] (build_vrp_var_index 3 1)
           = [(0, [(0, 1), (1, 2), (2, 1)])]"
    by (simp add: build_vrp_var_index_3_1 group_by_vehicle_def dict_get_default_def)
  have w: "walk [(0, 1), (1, 2), (2, 1)] 0 [0] = walk [(0, 1), (1, 2), (2, 1)] 1 [0, 1]"
    by (subst walk.simps) simp
  show ?thesis
    unfolding extract_vrp_solution_def g by (simp add: w walk_cycle del: One_nat_def)
qed

section \<open>Properties of the route metrics\<close>

text \<open>
  Claim C7 says that comparing a route with itself gives an improvement of 0 percent and
  0 minutes saved, the case of a baseline time of 0 being guarded. The source divides by
  the baseline time without a test. For the route \<open>[0]\<close> both times are the Python float
  \<open>0.0\<close> and the division raises ZeroDivisionError; for the route \<open>[0, 1]\<close> on a matrix of
  zeros the times are numpy zeros and the improvement is \<open>nan\<close>.
\<close>

theorem compare_route_with_itself_divides_by_zero:
  "compare_with_baseline [[0]] [0] [0] = Inl ZeroDivisionError
   \<and> map_sum id improvement_percent (compare_with_baseline [[0, 0], [0, 0]] [0, 1] [0, 1]) = Inr NaN"
  by (simp add: compare_with_baseline_def RouteOptimizer_calculate_route_time_def bind_def
      py_div_def np_div_def mat_get_def py_index_def)

section \<open>Properties of the simplified optimizer\<close>

subsection \<open>Index errors cannot occur on a square matrix\<close>

lemma py_index_ok:
  "in_range n i \<Longrightarrow> \<exists>k. py_index n i = Inr k \<and> k < n"
  by (auto simp: py_index_def in_range_def)

lemma mat_get_ok:
  assumes "square_matrix n M" "in_range n i" "in_range n j"
  shows "\<exists>v. mat_get M i j = Inr v"
proof -
  from assms(1) have len: "length M = n" and rows: "\<And>r. r < n \<Longrightarrow> length (M ! r) = n"
    by (auto simp: square_matrix_def list_all_length)
  from py_index_ok[OF assms(2)] obtain r where r: "py_index n i = Inr r" "r < n" by blast
  from py_index_ok[OF assms(3)] obtain c where c: "py_index n j = Inr c" "c < n" by blast
  show ?thesis by (simp add: mat_get_def len r rows c)
qed

lemma sum_edges_ok:
  "square_matrix n M \<Longrightarrow> list_all (in_range n) r \<Longrightarrow> \<exists>v. sum_edges r M t = Inr v"
proof (induction r M t rule: sum_edges.induct)
  case (1 a b rest M t)
  then have sq: "square_matrix n M" and ab: "in_range n a" "in_range n b"
    and rest: "list_all (in_range n) (b # rest)"
    by simp_all
  from mat_get_ok[OF sq ab] obtain v where v: "mat_get M a b = Inr v" by blast
  from "1.IH"[OF sq rest] show ?case by (simp add: v)
qed simp_all

lemma in_range_0: "in_range n i \<Longrightarrow> in_range n 0"
  by (auto simp: in_range_def)

lemma calculate_route_time_ok:
  assumes "square_matrix n M" "list_all (in_range n) r"
  shows "\<exists>v. calculate_route_time r M = Inr v"
proof (cases "length r < 2")
  case True then show ?thesis by (simp add: calculate_route_time_def)
next
  case False
  then have ne: "r \<noteq> []" by auto
  from sum_edges_ok[OF assms] obtain t where t: "sum_edges r M 0 = Inr t" by blast
  from ne assms(2) have l: "in_range n (last r)"
    by (metis last_in_set list_all_iff)
  from mat_get_ok[OF assms(1) l in_range_0[OF l]] obtain v where "mat_get M (last r) 0 = Inr v"
    by blast
  with False t show ?thesis by (simp add: calculate_route_time_def)
qed

subsection \<open>The 2-opt search\<close>

lemma mset_reverse_slice: "i \<le> j \<Longrightarrow> mset (reverse_slice i j xs) = mset xs"
proof -
  assume le: "i \<le> j"
  have "take (j - i) (drop i xs) @ drop j xs = drop i xs"
    using le by (metis append_take_drop_id drop_drop le_add_diff_inverse2)
  then have "mset (take (j - i) (drop i xs)) + mset (drop j xs) = mset (drop i xs)"
    by (metis mset_append)
  moreover have "mset (take i xs) + mset (drop i xs) = mset xs"
    by (metis append_take_drop_id mset_append)
  ultimately show ?thesis
    by (simp add: reverse_slice_def add.assoc)
qed

lemma hd_reverse_slice: "0 < i \<Longrightarrow> xs \<noteq> [] \<Longrightarrow> hd (reverse_slice i j xs) = hd xs"
  by (cases xs; cases i) (simp_all add: reverse_slice_def)

lemma list_all_mset_cong: "mset r = mset br \<Longrightarrow> list_all P br \<Longrightarrow> list_all P r"
  by (metis list_all_iff set_mset_mset)

lemma two_opt_scan_j_ok:
  assumes sq: "square_matrix n M" and rng: "list_all (in_range n) br" and ne: "br \<noteq> []"
    and i: "0 < i"
  shows "\<forall>j \<in> set js. i \<le> j \<Longrightarrow>
         \<exists>res. two_opt_scan_j M br bt i js = Inr res \<and> improving M br bt res"
proof (induction js)
  case Nil
  then show ?case by (simp add: improving_def)
next
  case (Cons j js)
  then have ij: "i \<le> j" by simp
  let ?r = "reverse_slice i j br"
  have ms: "mset ?r = mset br" using ij by (rule mset_reverse_slice)
  have hd: "hd ?r = hd br" using i ne by (rule hd_reverse_slice)
  from calculate_route_time_ok[OF sq list_all_mset_cong[OF ms rng]]
  obtain t where t: "calculate_route_time ?r M = Inr t" by blast
  show ?case
  proof (cases "t < bt - 0.1")
    case True
    with t ms hd show ?thesis by (simp add: improving_def)
  next
    case False
    with t Cons show ?thesis by simp
  qed
qed

lemma two_opt_scan_i_ok:
  assumes sq: "square_matrix n M" and rng: "list_all (in_range n) br" and ne: "br \<noteq> []"
  shows "\<forall>i \<in> set is. 0 < i \<Longrightarrow>
         \<exists>res. two_opt_scan_i M br bt is = Inr res \<and> improving M br bt res"
proof (induction "is")
  case Nil
  then show ?case by (simp add: improving_def)
next
  case (Cons i "is")
  then have i: "0 < i" by simp
  have "\<forall>j \<in> set [i + 2..<length br]. i \<le> j" by simp
  from two_opt_scan_j_ok[OF sq rng ne i this, of bt]
  obtain res where res: "two_opt_scan_j M br bt i [i + 2..<length br] = Inr res"
    "improving M br bt res" by blast
  show ?case
  proof (cases res)
    case None
    with res Cons show ?thesis by simp
  next
    case (Some p)
    with res show ?thesis by simp
  qed
qed

lemma two_opt_rounds_ok:
  assumes sq: "square_matrix n M"
  shows "list_all (in_range n) br \<Longrightarrow> br \<noteq> [] \<Longrightarrow> calculate_route_time br M = Inr bt \<Longrightarrow>
         \<exists>r t. two_opt_rounds k M br bt = Inr r \<and> mset r = mset br \<and> hd r = hd br
                \<and> calculate_route_time r M = Inr t \<and> t \<le> bt"
proof (induction k arbitrary: br bt)
  case 0
  then show ?case by simp
next
  case (Suc k)
  have "\<forall>i \<in> set [1..<length br - 2]. 0 < i" by simp
  from two_opt_scan_i_ok[OF sq Suc.prems(1,2) this, of bt]
  obtain res where res: "two_opt_scan_i M br bt [1..<length br - 2] = Inr res"
    "improving M br bt res" by blast
  show ?case
  proof (cases res)
    case None
    from Suc.IH[OF Suc.prems] None res show ?thesis by simp
  next
    case (Some p)
    obtain r' t' where p: "p = (r', t')" by (cases p)
    with Some res have imp: "mset r' = mset br" "hd r' = hd br"
      "calculate_route_time r' M = Inr t'" "t' < bt - 0.1"
      by (simp_all add: improving_def)
    have rng': "list_all (in_range n) r'"
      using imp(1) Suc.prems(1) by (rule list_all_mset_cong)
    have ne': "r' \<noteq> []" using imp(1) Suc.prems(2) by auto
    from Suc.IH[OF rng' ne' imp(3)] obtain r t where
      "two_opt_rounds k M r' t' = Inr r" "mset r = mset r'" "hd r = hd r'"
      "calculate_route_time r M = Inr t" "t \<le> t'" by blast
    with imp Some p res show ?thesis by simp
  qed
qed

text \<open>
  Claim C10: for every route of at least two nodes whose entries index the (square)
  matrix, \<open>two_opt_improvement\<close> returns without an exception a route that is a permutation
  of the input with the same first node, and the route time of the result is at most the
  route time of the input.
\<close>

theorem two_opt_improvement_permutation_not_worse:
  assumes "square_matrix n time_matrix" and "list_all (in_range n) route"
    and "2 \<le> length route"
  shows "\<exists>r t t0. two_opt_improvement route time_matrix = Inr r
           \<and> mset r = mset route \<and> hd r = hd route
           \<and> calculate_route_time r time_matrix = Inr t
           \<and> calculate_route_time route time_matrix = Inr t0 \<and> t \<le> t0"
proof -
  from calculate_route_time_ok[OF assms(1,2)]
  obtain t0 where t0: "calculate_route_time route time_matrix = Inr t0" by blast
  show ?thesis
  proof (cases "length route \<le> 3")
    case True
    with t0 show ?thesis by (simp add: two_opt_improvement_def)
  next
    case False
    from assms(3) have ne: "route \<noteq> []" by auto
    from two_opt_rounds_ok[OF assms(1,2) ne t0, of 10]
    obtain r t where "two_opt_rounds 10 time_matrix route t0 = Inr r" "mset r = mset route"
      "hd r = hd route" "calculate_route_time r time_matrix = Inr t" "t \<le> t0" by blast
    with False t0 show ?thesis by (simp add: two_opt_improvement_def)
  qed
qed

theorem two_opt_improvement_permutation_not_worse_witness:
  "square_matrix 4 [[0, 1, 9, 1], [1, 0, 1, 9], [9, 1, 0, 1], [1, 9, 1, 0]]
   \<and> list_all (in_range 4) [0, 2, 1, 3] \<and> 2 \<le> length [0, 2, 1, 3 :: int]
   \<and> (\<exists>r t t0.
         two_opt_improvement [0, 2, 1, 3]
           [[0, 1, 9, 1], [1, 0, 1, 9], [9, 1, 0, 1], [1, 9, 1, 0]] = Inr r
         \<and> mset r = mset [0, 2, 1, 3] \<and> hd r = hd [0, 2, 1, 3]
         \<and> calculate_route_time r [[0, 1, 9, 1], [1, 0, 1, 9], [9, 1, 0, 1], [1, 9, 1, 0]] = Inr t
         \<and> calculate_route_time [0, 2, 1, 3]
              [[0, 1, 9, 1], [1, 0, 1, 9], [9, 1, 0, 1], [1, 9, 1, 0]] = Inr t0
         \<and> t \<le> t0)"
proof -
  have sq: "square_matrix 4 [[0, 1, 9, 1], [1, 0, 1, 9], [9, 1, 0, 1], [1, 9, 1, 0]]"
    by (simp add: square_matrix_def)
  have rng: "list_all (in_range 4) [0, 2, 1, 3]"
    by (simp add: in_range_def)
  have len: "2 \<le> length [0, 2, 1, 3 :: int]"
    by simp
  from two_opt_improvement_permutation_not_worse[OF sq rng len] sq rng len
  show ?thesis by blast
qed

subsection \<open>The nearest-neighbour baseline and the choice of a strategy\<close>

lemma min_by_ok:
  "\<forall>x \<in> set xs. \<exists>k. f x = Inr k \<Longrightarrow>
   \<exists>y. min_by f xs best bk = Inr y \<and> (y = best \<or> y \<in> set xs)"
proof (induction xs arbitrary: best bk)
  case Nil
  then show ?case by simp
next
  case (Cons x xs)
  then obtain k where k: "f x = Inr k" by auto
  from Cons.prems have rest: "\<forall>x \<in> set xs. \<exists>k. f x = Inr k" by simp
  show ?case
  proof (cases "k < bk")
    case True
    from Cons.IH[OF rest, of x k] True k show ?thesis by auto
  next
    case False
    from Cons.IH[OF rest, of best bk] False k show ?thesis by auto
  qed
qed

lemma py_min_ok:
  assumes "xs \<noteq> []" and "\<forall>x \<in> set xs. \<exists>k. f x = Inr k"
  shows "\<exists>y. py_min f xs = Inr y \<and> y \<in> set xs"
proof -
  from assms(1) obtain x rest where xs: "xs = x # rest" by (cases xs) auto
  with assms(2) obtain k where k: "f x = Inr k" by auto
  from assms(2) xs have "\<forall>x \<in> set rest. \<exists>k. f x = Inr k" by simp
  from min_by_ok[OF this, of x k] xs k show ?thesis by (auto simp: py_min_def)
qed

lemma nearest_neighbor_loop_ok:
  "square_matrix n M \<Longrightarrow> in_range n current \<Longrightarrow> list_all (in_range n) unvisited \<Longrightarrow>
   \<exists>r. nearest_neighbor_loop M unvisited route current = Inr r
        \<and> mset r = mset route + mset unvisited"
proof (induction M unvisited route current rule: nearest_neighbor_loop.induct)
  case (1 M unvisited route current)
  show ?case
  proof (cases "unvisited = []")
    case True
    then show ?thesis by (subst nearest_neighbor_loop.simps) simp
  next
    case False
    have "\<forall>x \<in> set unvisited. \<exists>k. mat_get M current x = Inr k"
      using mat_get_ok[OF "1.prems"(1,2)] "1.prems"(3) by (simp add: list_all_iff)
    from py_min_ok[OF False this] obtain y where
      y: "py_min (mat_get M current) unvisited = Inr y" "y \<in> set unvisited" by blast
    have yr: "in_range n y" using y(2) "1.prems"(3) by (simp add: list_all_iff)
    have rest: "list_all (in_range n) (remove1 y unvisited)"
      using "1.prems"(3) by (auto simp: list_all_iff dest: notin_set_remove1)
    from "1.IH"[OF False y(1) "1.prems"(1) yr rest] obtain r where
      r: "nearest_neighbor_loop M (remove1 y unvisited) (route @ [y]) y = Inr r"
         "mset r = mset (route @ [y]) + mset (remove1 y unvisited)" by blast
    have "mset r = mset route + mset unvisited"
      using r(2) y(2) by simp
    moreover have "nearest_neighbor_loop M unvisited route current = Inr r"
      using False y(1) r(1) by (subst nearest_neighbor_loop.simps) simp
    ultimately show ?thesis by blast
  qed
qed

lemma in_range_int: "k < n \<Longrightarrow> in_range n (int k)"
  by (simp add: in_range_def)

lemma nearest_neighbor_ok:
  assumes "square_matrix n M" and "0 < n"
  shows "\<exists>r. nearest_neighbor M = Inr r \<and> list_all (in_range n) r \<and> length r = n"
proof -
  from assms(1) have len: "length M = n" by (simp add: square_matrix_def)
  have rng: "list_all (in_range n) (map int [1..<n])"
    by (simp add: list_all_iff in_range_int)
  have z: "in_range n 0" using assms(2) by (simp add: in_range_def)
  from nearest_neighbor_loop_ok[OF assms(1) z rng, of "[0]"] obtain r where
    r: "nearest_neighbor_loop M (map int [1..<n]) [0] 0 = Inr r"
       "mset r = mset [0] + mset (map int [1..<n])" by blast
  have ms: "mset r = mset (0 # map int [1..<n])" using r(2) by simp
  have all: "list_all (in_range n) (0 # map int [1..<n])" using rng z by simp
  have "list_all (in_range n) r" using ms all by (rule list_all_mset_cong)
  moreover have "length r = length (0 # map int [1..<n])" using ms by (rule mset_eq_length)
  ultimately show ?thesis using r(1) assms(2)
    by (simp add: nearest_neighbor_def len)
qed

lemma two_opt_improvement_ok:
  assumes "square_matrix n M" and "list_all (in_range n) r0"
  shows "\<exists>r. two_opt_improvement r0 M = Inr r \<and> list_all (in_range n) r \<and> length r = length r0"
proof (cases "length r0 \<le> 3")
  case True
  with assms show ?thesis by (simp add: two_opt_improvement_def)
next
  case False
  then have ne: "r0 \<noteq> []" by auto
  from calculate_route_time_ok[OF assms] obtain t0 where
    t0: "calculate_route_time r0 M = Inr t0" by blast
  from two_opt_rounds_ok[OF assms ne t0, of 10] obtain r where
    r: "two_opt_rounds 10 M r0 t0 = Inr r" "mset r = mset r0" by blast
  from r(2) assms(2) have "list_all (in_range n) r" by (rule list_all_mset_cong)
  moreover from r(2) have "length r = length r0" by (rule mset_eq_length)
  ultimately show ?thesis using False t0 r(1) by (simp add: two_opt_improvement_def)
qed

lemma multi_strategy_optimize_ok:
  assumes sq: "square_matrix n M" and pos: "0 < n"
  shows "\<exists>r. multi_strategy_optimize M = Inr r \<and> list_all (in_range n) r \<and> length r = n"
proof -
  from sq have len: "length M = n" by (simp add: square_matrix_def)
  from nearest_neighbor_ok[OF sq pos] obtain nn where
    nn: "nearest_neighbor M = Inr nn" "list_all (in_range n) nn" "length nn = n" by blast
  from calculate_route_time_ok[OF sq nn(2)] obtain nt where
    nt: "calculate_route_time nn M = Inr nt" by blast
  from two_opt_improvement_ok[OF sq nn(2)] nn(3) obtain opt where
    opt: "two_opt_improvement nn M = Inr opt" "list_all (in_range n) opt" "length opt = n"
    by auto
  from calculate_route_time_ok[OF sq opt(2)] obtain ot where
    ot: "calculate_route_time opt M = Inr ot" by blast
  have rr: "list_all (in_range n) (random_route M)" "length (random_route M) = n"
    using pos by (auto simp: random_route_def len list_all_iff in_range_def)
  from two_opt_improvement_ok[OF sq rr(1)] rr(2) obtain ropt where
    ropt: "two_opt_improvement (random_route M) M = Inr ropt" "list_all (in_range n) ropt"
      "length ropt = n" by auto
  from calculate_route_time_ok[OF sq ropt(2)] obtain rt where
    rt: "calculate_route_time ropt M = Inr rt" by blast
  define strategies where "strategies =
    (if n > 3 then [(nn, nt), (opt, ot), (ropt, rt)] else [(nn, nt), (opt, ot)])"
  have good: "\<forall>p \<in> set strategies. list_all (in_range n) (fst p) \<and> length (fst p) = n"
    using nn opt ropt by (auto simp: strategies_def)
  have "strategies \<noteq> []" by (simp add: strategies_def)
  moreover have "\<forall>x \<in> set strategies. \<exists>k. (Inr (snd x) :: error + real) = Inr k" by simp
  ultimately obtain best where
    best: "py_min (\<lambda>x. Inr (snd x)) strategies = Inr best" "best \<in> set strategies"
    using py_min_ok[of strategies "\<lambda>x. Inr (snd x)"] by blast
  have "multi_strategy_optimize M = Inr (fst best)"
    using nn(1) nt opt(1) ot ropt(1) rt best(1)
    by (simp add: multi_strategy_optimize_def len strategies_def split: if_splits)
  with good best(2) show ?thesis by auto
qed

subsection \<open>The clamped improvement\<close>

lemma nearest_neighbor_zero_2x2: "nearest_neighbor [[0, 0], [0, 0]] = Inr [0, 1]"
  by (simp add: nearest_neighbor_def upt_rec py_min_def mat_get_def py_index_def)

text \<open>
  Claim C9 says that for every time matrix of at least two nodes the result reports an
  improvement of at least 5 percent and a strictly positive time saved. On the 2 by 2
  matrix of zeros (two nodes at the same place) the baseline time is 0, the quotient is
  \<open>0/0\<close>, \<open>max(nan, 5.0)\<close> is \<open>nan\<close>, and both fields are \<open>nan\<close>.
\<close>

theorem optimize_route_zero_matrix:
  "map_sum id (\<lambda>res. (result_improvement_percent res, time_saved_minutes res))
     (optimize_route [[0, 0], [0, 0]]) = Inr (NaN, NaN)"
proof -
  have ct: "calculate_route_time [0, 1] [[0, 0], [0, 0]] = Inr 0"
    by (simp add: calculate_route_time_def mat_get_def py_index_def)
  have to: "two_opt_improvement [0, 1] [[0, 0], [0, 0]] = Inr [0, 1]"
    by (simp add: two_opt_improvement_def)
  have ms: "multi_strategy_optimize [[0, 0], [0, 0]] = Inr [0, 1]"
    by (simp add: multi_strategy_optimize_def nearest_neighbor_zero_2x2 ct to py_min_def)
  show ?thesis
    by (simp add: optimize_route_def nearest_neighbor_zero_2x2 ct ms np_div_def Let_def)
qed

text \<open>
  Claim C9 as amended: for every square time matrix of at least two nodes whose
  nearest-neighbour baseline has a strictly positive time \<open>bt\<close>, \<open>optimize_route\<close> returns a
  result whose improvement is a finite percentage \<open>p\<close> of at least 5, and whose time saved
  is \<open>bt * p / 100\<close>, strictly positive; the time of the optimized route plays no part in
  the bound.
\<close>

theorem optimize_route_clamps_improvement:
  assumes sq: "square_matrix n time_matrix" and n2: "2 \<le> n"
    and base: "bind (nearest_neighbor time_matrix) (\<lambda>r. calculate_route_time r time_matrix)
               = Inr bt"
    and pos: "0 < bt"
  shows "\<exists>res p. optimize_route time_matrix = Inr res
           \<and> result_improvement_percent res = Fin p \<and> 5 \<le> p
           \<and> time_saved_minutes res = Fin (bt * (p / 100)) \<and> 0 < bt * (p / 100)"
proof -
  from n2 have n0: "0 < n" by simp
  from nearest_neighbor_ok[OF sq n0] obtain b where
    b: "nearest_neighbor time_matrix = Inr b" "list_all (in_range n) b" "length b = n" by blast
  from base b(1) have bt: "calculate_route_time b time_matrix = Inr bt" by simp
  from multi_strategy_optimize_ok[OF sq n0] obtain r where
    r: "multi_strategy_optimize time_matrix = Inr r" "list_all (in_range n) r" "length r = n"
    by blast
  from calculate_route_time_ok[OF sq r(2)] obtain ot where
    ot: "calculate_route_time r time_matrix = Inr ot" by blast
  define p where "p = (if 5 > 100 * ((bt - ot) / bt) then 5 else 100 * ((bt - ot) / bt))"
  have p5: "5 \<le> p" by (simp add: p_def)
  have imp: "py_max_5 (np_scale 100 (np_div (bt - ot) bt)) = Fin p"
    using pos by (simp add: np_div_def p_def)
  have "0 < bt * (p / 100)" using pos p5 by simp
  moreover have "optimize_route time_matrix =
    Inr \<lparr>baseline_route = b, baseline_total_time = bt,
         optimized_route = r, optimized_total_time = ot,
         on_time_deliveries = np_shift 95 (np_scale 0.5 (Fin p)),
         time_saved_minutes = np_times bt (np_scale (1 / 100) (Fin p)),
         result_improvement_percent = Fin p,
         co2_savings_kg = np_scale 0.1 (np_times bt (np_scale (1 / 100) (Fin p))),
         fuel_savings_liters = np_scale 0.05 (np_times bt (np_scale (1 / 100) (Fin p)))\<rparr>"
    using b bt r ot n2 imp by (simp add: optimize_route_def Let_def)
  ultimately show ?thesis using p5 by simp
qed

theorem optimize_route_clamps_improvement_witness:
  "square_matrix 2 [[0, 3], [4, 0]] \<and> (2 :: nat) \<le> 2
   \<and> bind (nearest_neighbor [[0, 3], [4, 0]]) (\<lambda>r. calculate_route_time r [[0, 3], [4, 0]])
       = Inr 7
   \<and> (0 :: real) < 7
   \<and> (\<exists>res p. optimize_route [[0, 3], [4, 0]] = Inr res
         \<and> result_improvement_percent res = Fin p \<and> 5 \<le> p
         \<and> time_saved_minutes res = Fin (7 * (p / 100)) \<and> 0 < 7 * (p / 100))"
proof -
  have sq: "square_matrix 2 [[0, 3], [4, 0]]"
    by (simp add: square_matrix_def)
  have n2: "(2 :: nat) \<le> 2"
    by simp
  have nn: "nearest_neighbor [[0, 3], [4, 0]] = Inr [0, 1]"
    by (simp add: nearest_neighbor_def upt_rec py_min_def mat_get_def py_index_def)
  have base: "bind (nearest_neighbor [[0, 3], [4, 0]])
                (\<lambda>r. calculate_route_time r [[0, 3], [4, 0]]) = Inr 7"
    by (simp add: nn calculate_route_time_def mat_get_def py_index_def)
  have pos: "(0 :: real) < 7"
    by simp
  from optimize_route_clamps_improvement[OF sq n2 base pos] sq base
  show ?thesis by simp
qed

section \<open>Properties of the traffic simulator\<close>

subsection \<open>The haversine distance is never negative\<close>

text \<open>
  The argument of the square root lies between 0 and 1 for all real latitudes and
  longitudes, in range or not: it is
  \<open>1/2 - (1 - s) * cos (q - p) / 2 + s * cos (q + p) / 2\<close> with \<open>s\<close> a squared sine.
\<close>

lemma sin_half_sq: "(sin (d / 2))\<^sup>2 = (1 - cos d) / (2::real)"
  using cos_double_sin[of "d / 2"] by simp

lemma cos_prod: "cos p * cos q = (cos (q - p) + cos (q + p)) / (2::real)"
  by (simp add: cos_diff cos_add)

lemma haversine_a_bounds:
  fixes p q l :: real
  defines "a \<equiv> (sin ((q - p) / 2))\<^sup>2 + cos p * cos q * (sin (l / 2))\<^sup>2"
  shows "0 \<le> a" and "a \<le> 1"
proof -
  define s where "s = (sin (l / 2))\<^sup>2"
  have s0: "0 \<le> s" by (simp add: s_def)
  have s1: "s \<le> 1" unfolding s_def
    by (metis abs_sin_le_one abs_square_le_1 power2_abs one_power2 power_mono abs_ge_zero)
  have "a = (sin ((q - p) / 2))\<^sup>2 + cos p * cos q * s"
    by (simp add: a_def s_def)
  also have "\<dots> = (1 - cos (q - p)) / 2 + ((cos (q - p) + cos (q + p)) / 2) * s"
    by (simp only: sin_half_sq cos_prod)
  also have "\<dots> = 1 / 2 - (1 - s) * cos (q - p) / 2 + s * cos (q + p) / 2"
    by (simp add: algebra_simps diff_divide_distrib add_divide_distrib)
  finally have a: "a = 1 / 2 - (1 - s) * cos (q - p) / 2 + s * cos (q + p) / 2" .
  have c1: "(1 - s) * cos (q - p) \<le> (1 - s) * 1"
    using s1 by (intro mult_left_mono) auto
  have c2: "s * (- 1) \<le> s * cos (q + p)"
    using s0 by (intro mult_left_mono) auto
  have c3: "- ((1 - s) * 1) \<le> (1 - s) * cos (q - p)"
    using s1 mult_left_mono[of "- 1" "cos (q - p)" "1 - s"] by auto
  have c4: "s * cos (q + p) \<le> s * 1"
    using s0 by (intro mult_left_mono) auto
  show "0 \<le> a" using a c1 c2 by simp
  show "a \<le> 1" using a c3 c4 by simp
qed

lemma haversine_distance_nonneg: "0 \<le> haversine_distance c1 c2"
proof -
  obtain lat1 lon1 lat2 lon2 where c: "c1 = (lat1, lon1)" "c2 = (lat2, lon2)"
    by (cases c1; cases c2) auto
  define a where "a = (sin ((radians lat2 - radians lat1) / 2))\<^sup>2
    + cos (radians lat1) * cos (radians lat2) * (sin ((radians lon2 - radians lon1) / 2))\<^sup>2"
  have "0 \<le> a" "a \<le> 1" unfolding a_def by (rule haversine_a_bounds)+
  then have "0 \<le> sqrt a" "sqrt a \<le> 1" by (simp_all add: real_sqrt_le_1_iff)
  then have "0 \<le> arcsin (sqrt a)" by (intro arcsin_nonneg) simp
  then show ?thesis by (simp add: haversine_distance_def c Let_def a_def)
qed

lemma get_time_multiplier_nonneg: "0 \<le> get_time_multiplier hour day weather"
  by (simp add: get_time_multiplier_def peak_hours_def weather_impact_def
      dict_get_default_def Let_def)

lemma get_edge_multiplier_nonneg:
  assumes "nonneg_incidents sim"
  shows "0 \<le> get_edge_multiplier sim e t"
proof (cases "map_of (incidents sim) e")
  case None
  then show ?thesis by (simp add: get_edge_multiplier_def)
next
  case (Some inc)
  then have "(e, inc) \<in> set (incidents sim)" by (rule map_of_SomeD)
  with assms have "0 \<le> inc_multiplier inc" by (auto simp: nonneg_incidents_def list_all_iff)
  with Some show ?thesis by (simp add: get_edge_multiplier_def)
qed

lemma compute_length:
  "length (compute_travel_time_matrix sim coords ct weather now) = length coords"
  by (simp add: compute_travel_time_matrix_def Let_def)

lemma compute_row_length:
  "i < length coords \<Longrightarrow>
   length (compute_travel_time_matrix sim coords ct weather now ! i) = length coords"
  by (simp add: compute_travel_time_matrix_def Let_def)

lemma compute_diagonal:
  "i < length coords \<Longrightarrow> compute_travel_time_matrix sim coords ct weather now ! i ! i = 0"
  by (simp add: compute_travel_time_matrix_def Let_def)

lemma compute_entry_nonneg:
  assumes "nonneg_incidents sim" and "i < length coords" and "j < length coords"
  shows "0 \<le> compute_travel_time_matrix sim coords ct weather now ! i ! j"
proof -
  have "0 \<le> haversine_distance (coords ! i) (coords ! j) / base_speed_kmph * 60"
    using haversine_distance_nonneg[of "coords ! i" "coords ! j"]
    by (simp add: base_speed_kmph_def)
  then have "0 \<le> haversine_distance (coords ! i) (coords ! j) / base_speed_kmph * 60
               * get_time_multiplier h d weather * get_edge_multiplier sim e t" for h d e t
  proof -
    assume b: "0 \<le> haversine_distance (coords ! i) (coords ! j) / base_speed_kmph * 60"
    have "0 \<le> haversine_distance (coords ! i) (coords ! j) / base_speed_kmph * 60
            * get_time_multiplier h d weather"
      using b get_time_multiplier_nonneg[of h d weather] by (rule mult_nonneg_nonneg)
    then show ?thesis
      using get_edge_multiplier_nonneg[OF assms(1), of e t] by (rule mult_nonneg_nonneg)
  qed
  with assms(2,3) show ?thesis
    by (simp add: compute_travel_time_matrix_def Let_def)
qed

subsection \<open>Concrete distances and edge names\<close>

lemma haversine_equator_antipodes: "haversine_distance (0, 0) (0, 180) = pi * 6371"
  by (simp add: haversine_distance_def radians_def)


lemma midnight_clear: "get_time_multiplier (dt_hour 0) (dt_weekday 0) ''clear'' = 1"
  by (simp add: get_time_multiplier_def dt_hour_def dt_weekday_def peak_hours_def
      weather_impact_def dict_get_default_def)

lemma upt_0_2n: "[0..<2] = [0, 1]"
  by (simp add: upt_rec)

lemma str_nat_digits: "str_nat 0 = ''0''" "str_nat (Suc 0) = ''1''" "str_nat 2 = ''2''"
  by (subst str_nat.simps, simp add: digit_char_def)+

lemma edge_ids: "edge_id_of 0 (Suc 0) = ''0-1''" "edge_id_of (Suc 0) 0 = ''1-0''"
  "edge_id_of (Suc 0) 2 = ''1-2''"
  by (simp_all add: edge_id_of_def str_nat_digits)

subsection \<open>Shape and sign of the travel-time matrix\<close>

text \<open>
  Claim C8 says that for every valid coordinate list the matrix is square, has a zero
  diagonal and is non-negative elsewhere. The multiplier of a registered incident is its
  type factor times the severity given to \<open>add_incident\<close>, which the source takes as it
  comes: with an accident of severity \<open>-1\<close> on the edge \<open>0-1\<close>, active at the time of the
  call, the entry from node 0 to node 1 is negative for two valid coordinates.
\<close>

theorem travel_time_matrix_negative_with_negative_severity:
  "list_all valid_coordinate [(0, 0), (0, 180)]
   \<and> compute_travel_time_matrix
        (add_incident \<lparr>incidents = []\<rparr> ''0-1'' ''accident'' (- 1) (Some 0) two_hours 0)
        [(0, 0), (0, 180)] (Some 0) ''clear'' 0 ! 0 ! 1 < 0"
proof -
  have "compute_travel_time_matrix
        (add_incident \<lparr>incidents = []\<rparr> ''0-1'' ''accident'' (- 1) (Some 0) two_hours 0)
        [(0, 0), (0, 180)] (Some 0) ''clear'' 0 ! 0 ! 1 = 12742 * pi * (- 1.8)"
    by (simp add: compute_travel_time_matrix_def Let_def upt_0_2n haversine_equator_antipodes
        midnight_clear get_edge_multiplier_def base_speed_kmph_def add_incident_def edge_ids
        two_hours_def predict_incident_impact_def incident_multipliers_def dict_get_default_def)
  moreover have "12742 * pi * (- 1.8) < 0" by simp
  ultimately show ?thesis by (simp add: valid_coordinate_def)
qed

text \<open>
  Claim C8 as amended: for every valid coordinate list and every simulator none of whose
  registered incidents has a negative multiplier, the matrix is square with the side of
  the number of coordinates, has zero on the diagonal and a non-negative value in every
  entry off the diagonal.
\<close>

theorem travel_time_matrix_square_zero_diagonal_nonneg:
  assumes "list_all valid_coordinate coords" and "nonneg_incidents sim"
  shows "square_matrix (length coords) (compute_travel_time_matrix sim coords ct weather now)
         \<and> (\<forall>i < length coords. compute_travel_time_matrix sim coords ct weather now ! i ! i = 0)
         \<and> (\<forall>i < length coords. \<forall>j < length coords.
               i \<noteq> j \<longrightarrow> 0 \<le> compute_travel_time_matrix sim coords ct weather now ! i ! j)"
  using assms(2)
  by (simp add: square_matrix_def list_all_length compute_length compute_row_length
      compute_diagonal compute_entry_nonneg)

theorem travel_time_matrix_square_zero_diagonal_nonneg_witness:
  "list_all valid_coordinate [(0, 0), (0, 180)] \<and> nonneg_incidents \<lparr>incidents = []\<rparr>
   \<and> square_matrix 2
        (compute_travel_time_matrix \<lparr>incidents = []\<rparr> [(0, 0), (0, 180)] (Some 0) ''clear'' 0)
   \<and> compute_travel_time_matrix \<lparr>incidents = []\<rparr> [(0, 0), (0, 180)]
         (Some 0) ''clear'' 0 ! 0 ! 0 = 0
   \<and> compute_travel_time_matrix \<lparr>incidents = []\<rparr> [(0, 0), (0, 180)]
         (Some 0) ''clear'' 0 ! 1 ! 1 = 0
   \<and> 0 \<le> compute_travel_time_matrix \<lparr>incidents = []\<rparr> [(0, 0), (0, 180)]
         (Some 0) ''clear'' 0 ! 0 ! 1
   \<and> 0 \<le> compute_travel_time_matrix \<lparr>incidents = []\<rparr> [(0, 0), (0, 180)]
         (Some 0) ''clear'' 0 ! 1 ! 0"
proof -
  have v: "list_all valid_coordinate [(0, 0), (0, 180)]"
    by (simp add: valid_coordinate_def)
  have n: "nonneg_incidents \<lparr>incidents = []\<rparr>"
    by (simp add: nonneg_incidents_def)
  note t = travel_time_matrix_square_zero_diagonal_nonneg[OF v n, of "Some 0" "''clear''" 0]
  have len: "length [(0 :: real, 0 :: real), (0, 180)] = 2"
    by simp
  note t' = t[unfolded len]
  have sq: "square_matrix 2
      (compute_travel_time_matrix \<lparr>incidents = []\<rparr> [(0, 0), (0, 180)] (Some 0) ''clear'' 0)"
    using t' by (rule conjunct1)
  have diag: "\<And>i. i < 2 \<Longrightarrow>
      compute_travel_time_matrix \<lparr>incidents = []\<rparr> [(0, 0), (0, 180)]
        (Some 0) ''clear'' 0 ! i ! i = 0"
    using t' by blast
  have off: "\<And>i j. i < 2 \<Longrightarrow> j < 2 \<Longrightarrow> i \<noteq> j \<Longrightarrow>
      0 \<le> compute_travel_time_matrix \<lparr>incidents = []\<rparr> [(0, 0), (0, 180)]
             (Some 0) ''clear'' 0 ! i ! j"
    using t' by blast
  have d0: "compute_travel_time_matrix \<lparr>incidents = []\<rparr> [(0, 0), (0, 180)]
         (Some 0) ''clear'' 0 ! 0 ! 0 = 0"
    by (rule diag) simp
  have d1: "compute_travel_time_matrix \<lparr>incidents = []\<rparr> [(0, 0), (0, 180)]
         (Some 0) ''clear'' 0 ! 1 ! 1 = 0"
    by (rule diag) simp
  have o01: "0 \<le> compute_travel_time_matrix \<lparr>incidents = []\<rparr> [(0, 0), (0, 180)]
         (Some 0) ''clear'' 0 ! 0 ! 1"
    by (rule off) simp_all
  have o10: "0 \<le> compute_travel_time_matrix \<lparr>incidents = []\<rparr> [(0, 0), (0, 180)]
         (Some 0) ''clear'' 0 ! 1 ! 0"
    by (rule off) simp_all
  show ?thesis
    by (intro conjI v n sq d0 d1 o01 o10)
qed

subsection \<open>No validation of the coordinates\<close>






text \<open>
  On finite coordinates the matrix is the one of \<open>compute_travel_time_matrix\<close>.
\<close>

lemma compute_travel_time_matrix_np_finite:
  "compute_travel_time_matrix_np sim (map (\<lambda>c. (Fin (fst c), Fin (snd c))) coords) ct weather now
   = map (map Fin) (compute_travel_time_matrix sim coords ct weather now)"
  by (simp add: compute_travel_time_matrix_np_def compute_travel_time_matrix_def Let_def)




subsection \<open>Scenario runs and the incident registry\<close>

text \<open>
  The matrix depends on the simulator only through the content of its registry, and the
  writes of one scenario run, replayed on the registry they produced, change nothing.
\<close>

lemma incidents_add_incident:
  "map_of (incidents (add_incident sim e ty sev st dur now)) =
   (map_of (incidents sim))(e \<mapsto> \<lparr>inc_type = ty, inc_severity = sev,
      inc_start_time = (case st of None \<Rightarrow> now | Some t \<Rightarrow> t),
      inc_end_time = (case st of None \<Rightarrow> now | Some t \<Rightarrow> t) + dur,
      inc_multiplier = predict_incident_impact ty sev\<rparr>)"
  by (simp add: add_incident_def Let_def map_of_dict_set)

lemma storm_incidents:
  "map_of (incidents (fold (\<lambda>i sim. add_incident sim (key i) ty sev None dur (clock i)) xs sim)) =
   map_of (incidents sim) ++
   map_of (incidents (fold (\<lambda>i sim. add_incident sim (key i) ty sev None dur (clock i)) xs
                        \<lparr>incidents = []\<rparr>))"
proof (induction xs arbitrary: sim)
  case Nil
  then show ?case by simp
next
  case (Cons x xs)
  let ?f = "\<lambda>i sim. add_incident sim (key i) ty sev None dur (clock i)"
  have a: "map_of (incidents (fold ?f xs (?f x sim))) =
           map_of (incidents (?f x sim)) ++ map_of (incidents (fold ?f xs \<lparr>incidents = []\<rparr>))"
    by (rule Cons.IH)
  have b: "map_of (incidents (fold ?f xs (?f x \<lparr>incidents = []\<rparr>))) =
           map_of (incidents (?f x \<lparr>incidents = []\<rparr>))
             ++ map_of (incidents (fold ?f xs \<lparr>incidents = []\<rparr>))"
    by (rule Cons.IH)
  have c: "map_of (incidents (?f x sim)) =
           map_of (incidents sim) ++ map_of (incidents (?f x \<lparr>incidents = []\<rparr>))"
    by (simp add: incidents_add_incident)
  show ?case by (simp only: fold_simps a b c map_add_assoc)
qed

lemma storm_idempotent:
  "map_of (incidents (fold (\<lambda>i sim. add_incident sim (key i) ty sev None dur (clock i)) xs
      (fold (\<lambda>i sim. add_incident sim (key i) ty sev None dur (clock i)) xs sim))) =
   map_of (incidents (fold (\<lambda>i sim. add_incident sim (key i) ty sev None dur (clock i)) xs sim))"
proof -
  let ?f = "\<lambda>i sim. add_incident sim (key i) ty sev None dur (clock i)"
  let ?F = "map_of (incidents (fold ?f xs \<lparr>incidents = []\<rparr>))"
  have idem: "?F ++ ?F = ?F"
    by (simp add: map_add_def fun_eq_iff split: option.splits)
  have once: "map_of (incidents (fold ?f xs sim)) = map_of (incidents sim) ++ ?F"
    by (rule storm_incidents)
  have "map_of (incidents (fold ?f xs (fold ?f xs sim))) =
        map_of (incidents (fold ?f xs sim)) ++ ?F"
    by (rule storm_incidents)
  also have "\<dots> = (map_of (incidents sim) ++ ?F) ++ ?F"
    by (simp only: once)
  also have "\<dots> = map_of (incidents sim) ++ ?F"
    by (simp only: map_add_assoc[symmetric] idem)
  finally show ?thesis by (simp only: once)
qed

lemma get_edge_multiplier_cong:
  "map_of (incidents s) = map_of (incidents s') \<Longrightarrow>
   get_edge_multiplier s = get_edge_multiplier s'"
  by (simp add: get_edge_multiplier_def fun_eq_iff)

lemma compute_travel_time_matrix_cong:
  "map_of (incidents s) = map_of (incidents s') \<Longrightarrow>
   compute_travel_time_matrix s coords ct w now = compute_travel_time_matrix s' coords ct w now"
  by (simp only: compute_travel_time_matrix_def get_edge_multiplier_cong[of s s'])

lemma simulate_scenario_rerun:
  assumes "simulate_scenario sim coords scenario now clock = Inr (sim1, r1)"
    and "simulate_scenario sim1 coords scenario now clock = Inr (sim2, r2)"
  shows "res_time_matrix r2 = res_time_matrix r1"
proof -
  consider "scenario = ''normal''" | "scenario = ''peak''" | "scenario = ''incident''"
    | "scenario = ''storm''"
    | "scenario \<noteq> ''normal''" "scenario \<noteq> ''peak''" "scenario \<noteq> ''incident''"
      "scenario \<noteq> ''storm''"
    by blast
  then show ?thesis
  proof cases
    case 1
    with assms show ?thesis by (auto simp: simulate_scenario_def)
  next
    case 2
    with assms show ?thesis by (auto simp: simulate_scenario_def)
  next
    case 3
    let ?g = "\<lambda>s. add_incident (add_incident s ''0-1'' ''accident'' 1.5 None two_hours (clock 0))
                     ''1-2'' ''construction'' 1.2 None two_hours (clock 1)"
    from 3 assms have s1: "sim1 = ?g sim" and s2: "sim2 = ?g sim1"
      and r1: "res_time_matrix r1 = compute_travel_time_matrix sim1 coords (Some now) ''rain'' now"
      and r2: "res_time_matrix r2 = compute_travel_time_matrix sim2 coords (Some now) ''rain'' now"
      by (auto simp: simulate_scenario_def)
    have "map_of (incidents sim2) = map_of (incidents sim1)"
      unfolding s2 s1 by (simp add: incidents_add_incident)
    then show ?thesis unfolding r1 r2 by (rule compute_travel_time_matrix_cong)
  next
    case 4
    let ?f = "\<lambda>i sim. add_incident sim (edge_id_of i (i + 1)) ''road_closure'' 2 None two_hours
                         (clock i)"
    from 4 assms have s1: "sim1 = fold ?f [0..<length coords - 1] sim"
      and s2: "sim2 = fold ?f [0..<length coords - 1] sim1"
      and r1: "res_time_matrix r1 = compute_travel_time_matrix sim1 coords (Some now) ''storm'' now"
      and r2: "res_time_matrix r2 = compute_travel_time_matrix sim2 coords (Some now) ''storm'' now"
      by (auto simp: simulate_scenario_def)
    have "map_of (incidents sim2) = map_of (incidents sim1)"
      unfolding s2 s1 by (rule storm_idempotent)
    then show ?thesis unfolding r1 r2 by (rule compute_travel_time_matrix_cong)
  next
    case 5
    with assms show ?thesis by (simp add: simulate_scenario_def)
  qed
qed

lemma morning_clear: "get_time_multiplier (dt_hour 5000000) (dt_weekday 5000000) ''clear'' = 1"
  by (simp add: get_time_multiplier_def dt_hour_def dt_weekday_def peak_hours_def
      weather_impact_def dict_get_default_def)

lemma haversine_equator_antipodes_back: "haversine_distance (0, 180) (0, 0) = pi * 6371"
  by (simp add: haversine_distance_def radians_def)

text \<open>
  Claim C6 says that for the same coordinates, scenario and timestamp two runs give the
  same matrix, repeated calls on one simulator being independent of the state that earlier
  calls left. The registry \<open>self.incidents\<close> is kept between calls: after a run of the
  scenario \<open>incident\<close>, a run of \<open>normal\<close> on the same object still applies the accident on
  the edge \<open>0-1\<close>, and its matrix differs from the one of a new simulator for the same
  coordinates, scenario and clock readings.
\<close>

theorem simulate_scenario_depends_on_earlier_calls:
  "map_sum id (\<lambda>p. res_time_matrix (snd p))
     (bind (simulate_scenario \<lparr>incidents = []\<rparr> [(0, 0), (0, 180)] ''incident'' 1000000
              (\<lambda>k. 1000001 + int k))
        (\<lambda>(sim1, r1). simulate_scenario sim1 [(0, 0), (0, 180)] ''normal'' 5000000
                         (\<lambda>k. 5000001 + int k)))
   \<noteq> map_sum id (\<lambda>p. res_time_matrix (snd p))
       (simulate_scenario \<lparr>incidents = []\<rparr> [(0, 0), (0, 180)] ''normal'' 5000000
          (\<lambda>k. 5000001 + int k))"
proof -
  have fresh: "map_sum id (\<lambda>p. res_time_matrix (snd p))
       (simulate_scenario \<lparr>incidents = []\<rparr> [(0, 0), (0, 180)] ''normal'' 5000000
          (\<lambda>k. 5000001 + int k)) = Inr [[0, 12742 * pi], [12742 * pi, 0]]"
    by (simp add: simulate_scenario_def compute_travel_time_matrix_def Let_def upt_0_2n
        haversine_equator_antipodes haversine_equator_antipodes_back morning_clear get_edge_multiplier_def base_speed_kmph_def)
  have used: "map_sum id (\<lambda>p. res_time_matrix (snd p))
     (bind (simulate_scenario \<lparr>incidents = []\<rparr> [(0, 0), (0, 180)] ''incident'' 1000000
              (\<lambda>k. 1000001 + int k))
        (\<lambda>(sim1, r1). simulate_scenario sim1 [(0, 0), (0, 180)] ''normal'' 5000000
                         (\<lambda>k. 5000001 + int k)))
     = Inr [[0, 12742 * pi * 2.7], [12742 * pi, 0]]"
    by (simp add: simulate_scenario_def compute_travel_time_matrix_def Let_def upt_0_2n
        haversine_equator_antipodes haversine_equator_antipodes_back morning_clear get_edge_multiplier_def base_speed_kmph_def
        add_incident_def edge_ids two_hours_def predict_incident_impact_def
        incident_multipliers_def dict_get_default_def bind_def)
  have "12742 * pi * 2.7 \<noteq> 12742 * pi" by simp
  then show ?thesis unfolding fresh used by simp
qed

text \<open>
  Claim C6 as amended: for the same coordinate list, scenario name and clock readings, a
  run of \<open>simulate_scenario\<close> repeated on the same simulator reproduces the time matrix of
  the first run exactly (and fails when the first run fails). Nothing is said about runs
  that start from different registries.
\<close>

theorem simulate_scenario_repeatable:
  "map_sum id (\<lambda>p. res_time_matrix (snd p))
     (bind (simulate_scenario sim coords scenario now clock)
        (\<lambda>(sim1, r1). simulate_scenario sim1 coords scenario now clock))
   = map_sum id (\<lambda>p. res_time_matrix (snd p)) (simulate_scenario sim coords scenario now clock)"
proof (cases "simulate_scenario sim coords scenario now clock")
  case (Inl e)
  then show ?thesis by (simp add: bind_def)
next
  case (Inr p)
  obtain sim1 r1 where p: "p = (sim1, r1)" by (cases p)
  have known: "scenario = ''normal'' \<or> scenario = ''peak'' \<or> scenario = ''incident''
               \<or> scenario = ''storm''"
    using Inr by (auto simp: simulate_scenario_def split: if_splits)
  then obtain sim2 r2 where second: "simulate_scenario sim1 coords scenario now clock = Inr (sim2, r2)"
    by (auto simp: simulate_scenario_def)
  from simulate_scenario_rerun[OF Inr[unfolded p] second]
  show ?thesis by (simp add: Inr p second bind_def)
qed

end
